theory Spec2Isabelle
  imports Complex_Main "HOL-Library.Sublist"
begin

section \<open>JavaScript values and lenient numeric parsing\<close>

text \<open>
  The handler of \<^verbatim>\<open>api/health.js\<close> reads numbers with \<^verbatim>\<open>parseInt(v, 10)\<close> and
  \<^verbatim>\<open>parseFloat(v)\<close>. Both convert their argument to a string first, so a request value is
  modelled by its type and its string conversion. Strings are byte lists in UTF-8.

  A JavaScript number is a binary64 value. A finite one is represented by a rational that
  rounds to it (round to nearest, ties to even); only two facts about the rounding are ever
  needed and both are decided on the rational: whether it rounds to zero (magnitude at most
  \<open>2 ^ -1075\<close>) and whether it overflows to an infinity (magnitude at least
  \<open>2 ^ 1024 - 2 ^ 970\<close>). Zero and minus zero are one value here: both print as
  \<^verbatim>\<open>0\<close>, both are falsy and both are stored as 0.
\<close>

datatype jsval =
    JUndefined
  | JNull
  | JBool bool
  | JNum string   \<comment> \<open>a number, given by the string JavaScript prints for it\<close>
  | JStr string
  | JObj string   \<comment> \<open>an object or array, given by its string conversion\<close>

datatype jsnum = NaN | PInf | NInf | Fin rat

fun to_string :: "jsval \<Rightarrow> string" where
  "to_string JUndefined = ''undefined''"
| "to_string JNull = ''null''"
| "to_string (JBool b) = (if b then ''true'' else ''false'')"
| "to_string (JNum s) = s"
| "to_string (JStr s) = s"
| "to_string (JObj s) = s"

text \<open>White space and line terminators of ECMAScript, in UTF-8.\<close>

definition ws_codes :: "string list" where
  "ws_codes =
     [[CHR 0x09], [CHR 0x0A], [CHR 0x0B], [CHR 0x0C], [CHR 0x0D], [CHR 0x20],
      [CHR 0xC2, CHR 0xA0],
      [CHR 0xE1, CHR 0x9A, CHR 0x80],
      [CHR 0xE2, CHR 0x80, CHR 0x80], [CHR 0xE2, CHR 0x80, CHR 0x81],
      [CHR 0xE2, CHR 0x80, CHR 0x82], [CHR 0xE2, CHR 0x80, CHR 0x83],
      [CHR 0xE2, CHR 0x80, CHR 0x84], [CHR 0xE2, CHR 0x80, CHR 0x85],
      [CHR 0xE2, CHR 0x80, CHR 0x86], [CHR 0xE2, CHR 0x80, CHR 0x87],
      [CHR 0xE2, CHR 0x80, CHR 0x88], [CHR 0xE2, CHR 0x80, CHR 0x89],
      [CHR 0xE2, CHR 0x80, CHR 0x8A],
      [CHR 0xE2, CHR 0x80, CHR 0xA8], [CHR 0xE2, CHR 0x80, CHR 0xA9],
      [CHR 0xE2, CHR 0x80, CHR 0xAF],
      [CHR 0xE2, CHR 0x81, CHR 0x9F],
      [CHR 0xE3, CHR 0x80, CHR 0x80],
      [CHR 0xEF, CHR 0xBB, CHR 0xBF]]"

definition ws_len :: "string \<Rightarrow> nat" where
  "ws_len s = (case filter (\<lambda>w. prefix w s) ws_codes of [] \<Rightarrow> 0 | w # _ \<Rightarrow> length w)"

fun skip_ws :: "string \<Rightarrow> string" where
  "skip_ws [] = []"
| "skip_ws (c # cs) =
     (if ws_len (c # cs) = 0 then c # cs else skip_ws (drop (ws_len (c # cs) - 1) cs))"

definition is_digit :: "char \<Rightarrow> bool" where
  "is_digit c = (c \<in> set ''0123456789'')"

definition digit_val :: "char \<Rightarrow> nat" where
  "digit_val c = of_char c - 48"

definition dec_value :: "string \<Rightarrow> nat" where
  "dec_value ds = foldl (\<lambda>a c. 10 * a + digit_val c) 0 ds"

definition split_sign :: "string \<Rightarrow> bool \<times> string" where
  "split_sign s =
     (case s of
        [] \<Rightarrow> (False, [])
      | c # cs \<Rightarrow>
          if c = CHR ''-'' then (True, cs)
          else if c = CHR ''+'' then (False, cs)
          else (False, s))"

definition dbl_overflow :: rat where
  "dbl_overflow = 2 ^ 1024 - 2 ^ 970"

definition number :: "rat \<Rightarrow> jsnum" where
  "number x = (if dbl_overflow \<le> x then PInf else if x \<le> - dbl_overflow then NInf else Fin x)"

definition dbl_zero :: "rat \<Rightarrow> bool" where
  "dbl_zero x = (\<bar>x\<bar> * 2 ^ 1075 \<le> 1)"

definition signed :: "bool \<Rightarrow> rat \<Rightarrow> rat" where
  "signed neg x = (if neg then - x else x)"

text \<open>\<^verbatim>\<open>parseInt(s, 10)\<close>: leading white space, an optional sign, then the longest run
  of decimal digits; \<^verbatim>\<open>NaN\<close> when that run is empty.\<close>

definition parseInt_str :: "string \<Rightarrow> jsnum" where
  "parseInt_str s =
     (let (neg, t) = split_sign (skip_ws s); z = takeWhile is_digit t
      in if z = [] then NaN else number (signed neg (of_nat (dec_value z))))"

definition exponent_part :: "string \<Rightarrow> int" where
  "exponent_part s =
     (case s of
        [] \<Rightarrow> 0
      | c # cs \<Rightarrow>
          if c = CHR ''e'' \<or> c = CHR ''E'' then
            (let (neg, t) = split_sign cs; z = takeWhile is_digit t
             in if z = [] then 0 else if neg then - int (dec_value z) else int (dec_value z))
          else 0)"

definition scale10 :: "rat \<Rightarrow> int \<Rightarrow> rat" where
  "scale10 m e = (if 0 \<le> e then m * 10 ^ nat e else m / 10 ^ nat (- e))"

definition fraction_part :: "string \<Rightarrow> string \<times> string" where
  "fraction_part r =
     (case r of
        [] \<Rightarrow> ([], [])
      | c # cs \<Rightarrow>
          if c = CHR ''.'' then (takeWhile is_digit cs, dropWhile is_digit cs) else ([], r))"

text \<open>\<^verbatim>\<open>parseFloat(s)\<close>: leading white space, then the longest prefix that is a decimal
  literal (sign, \<^verbatim>\<open>Infinity\<close> or digits with an optional fraction and exponent).\<close>

definition parseFloat_str :: "string \<Rightarrow> jsnum" where
  "parseFloat_str s =
     (let (neg, t) = split_sign (skip_ws s)
      in if prefix ''Infinity'' t then (if neg then NInf else PInf)
         else
           (let i = takeWhile is_digit t;
                (f, r) = fraction_part (dropWhile is_digit t)
            in if i = [] \<and> f = [] then NaN
               else number (signed neg
                      (scale10 (of_nat (dec_value (i @ f)) / 10 ^ length f) (exponent_part r)))))"

definition parseInt :: "jsval \<Rightarrow> jsnum" where
  "parseInt v = parseInt_str (to_string v)"

definition parseFloat :: "jsval \<Rightarrow> jsnum" where
  "parseFloat v = parseFloat_str (to_string v)"

text \<open>\<^verbatim>\<open>function toInt(v) { const n = parseInt(v, 10); return Number.isFinite(n) ? n : null; }\<close>\<close>

definition toInt :: "jsval \<Rightarrow> rat option" where
  "toInt v = (case parseInt v of Fin n \<Rightarrow> Some n | _ \<Rightarrow> None)"

text \<open>\<^verbatim>\<open>function toFloat(v) { const n = parseFloat(v); return Number.isFinite(n) ? n : null; }\<close>\<close>

definition toFloat :: "jsval \<Rightarrow> rat option" where
  "toFloat v = (case parseFloat v of Fin n \<Rightarrow> Some n | _ \<Rightarrow> None)"

text \<open>\<^verbatim>\<open>x || d\<close> for \<open>x\<close> a number or \<^verbatim>\<open>null\<close>: \<^verbatim>\<open>null\<close> and zero are falsy.\<close>

definition or_default :: "rat option \<Rightarrow> rat \<Rightarrow> rat" where
  "or_default x d = (case x of None \<Rightarrow> d | Some n \<Rightarrow> if dbl_zero n then d else n)"


section \<open>The relational store\<close>

text \<open>
  The tables of \<^verbatim>\<open>supabase.sql\<close>; each table is the list of its rows. A value of a
  \<^verbatim>\<open>uuid\<close> column is represented by the text the store prints for it (lower case, five
  groups); the columns compare by value. A calendar date is a day number
  (days since 1970-01-01). The column \<^verbatim>\<open>created_at\<close> is never read and is left out.
  A query fails only by what the schema and the column types refuse; a store that cannot be
  reached is outside the model.
\<close>

type_synonym uuid = string

text \<open>
  The store's reading of a uuid literal, as PostgreSQL reads it: an optional opening brace,
  sixteen bytes of two hexadecimal digits in either case, an optional hyphen after each group
  of four digits, the closing brace if one was opened, and nothing more. The value is printed
  in lower case with the hyphens of the groups 8-4-4-4-12. So one value has many spellings.
\<close>

definition is_hex :: "char \<Rightarrow> bool" where
  "is_hex c = (c \<in> set ''0123456789abcdefABCDEF'')"

definition lower_hex :: "char \<Rightarrow> char" where
  "lower_hex c =
     (if c = CHR ''A'' then CHR ''a'' else if c = CHR ''B'' then CHR ''b''
      else if c = CHR ''C'' then CHR ''c'' else if c = CHR ''D'' then CHR ''d''
      else if c = CHR ''E'' then CHR ''e'' else if c = CHR ''F'' then CHR ''f'' else c)"

text \<open>The bytes in turn; the flag of a byte says whether a hyphen may follow it.\<close>

fun uuid_bytes :: "bool list \<Rightarrow> string \<Rightarrow> (string \<times> string) option" where
  "uuid_bytes [] s = Some ([], s)"
| "uuid_bytes (dash # ds) (a # b # s) =
     (if is_hex a \<and> is_hex b then
        (case uuid_bytes ds
                (if dash then (case s of [] \<Rightarrow> s | c # cs \<Rightarrow> if c = CHR ''-'' then cs else s)
                 else s) of
           None \<Rightarrow> None
         | Some (hs, r) \<Rightarrow> Some (lower_hex a # lower_hex b # hs, r))
      else None)"
| "uuid_bytes (dash # ds) s = None"

definition uuid_dashes :: "bool list" where
  "uuid_dashes =
     [False, True, False, True, False, True, False, True,
      False, True, False, True, False, True, False, False]"

definition uuid_print :: "string \<Rightarrow> uuid" where
  "uuid_print hs =
     take 8 hs @ ''-'' @ take 4 (drop 8 hs) @ ''-'' @ take 4 (drop 12 hs) @ ''-''
     @ take 4 (drop 16 hs) @ ''-'' @ drop 20 hs"

definition uuid_in :: "string \<Rightarrow> uuid option" where
  "uuid_in s =
     (let (braces, t) = (case s of
                           [] \<Rightarrow> (False, [])
                         | c # cs \<Rightarrow> if c = CHR ''{'' then (True, cs) else (False, s))
      in case uuid_bytes uuid_dashes t of
           None \<Rightarrow> None
         | Some (hs, r) \<Rightarrow>
             if r = (if braces then ''}'' else []) then Some (uuid_print hs) else None)"

text \<open>
  An identifier as the handler holds it. \<^verbatim>\<open>user.id\<close>, \<^verbatim>\<open>existing.id\<close>,
  \<^verbatim>\<open>link.id\<close> and \<^verbatim>\<open>patient.id\<close> were printed by the identity provider or by the
  store: they are held values, and the store reads its own print back as the same value.
  \<^verbatim>\<open>user_id\<close> of the query and \<^verbatim>\<open>doctor_id\<close> of the body are given by the request
  as text, which the store reads with \<open>uuid_in\<close>. The handler itself compares the strings.
\<close>

datatype idarg = Held uuid | Given string

fun id_text :: "idarg \<Rightarrow> string" where
  "id_text (Held v) = v"
| "id_text (Given s) = s"

fun store_reads :: "idarg \<Rightarrow> uuid option" where
  "store_reads (Held v) = Some v"
| "store_reads (Given s) = uuid_in s"

record profile =
  p_id :: uuid
  p_email :: "string option"
  p_name :: "string option"
  p_role :: "string option"

record patient_profile =
  pp_user_id :: uuid
  pp_age :: "int option"
  pp_weight :: "rat option"
  pp_height :: "rat option"
  pp_gender :: "string option"
  pp_nationality :: "string option"
  pp_medical_history :: "string option"
  pp_current_medications :: "string option"
  pp_allergies :: "string option"
  pp_family_history :: "string option"
  pp_lifestyle_factors :: "string option"

record doctor_profile =
  dp_user_id :: uuid
  dp_gender :: "string option"
  dp_age :: "int option"
  dp_nationality :: "string option"
  dp_level_of_education :: "string option"
  dp_medical_school :: "string option"
  dp_year_of_education :: "int option"
  dp_medical_license_number :: "string option"
  dp_license_region :: "string option"
  dp_speciality :: "string option"
  dp_years_of_experience :: "int option"
  dp_current_workplace :: "string option"
  dp_languages_spoken :: "string option"

record habit =
  h_id :: uuid
  h_user_id :: uuid
  h_date :: int
  h_steps :: int
  h_water_cups :: int
  h_sleep_hours :: rat

record vital =
  v_id :: uuid
  v_user_id :: uuid
  v_date :: int
  v_blood_glucose :: "int option"
  v_blood_pressure_sys :: "int option"
  v_blood_pressure_dia :: "int option"
  v_heart_rate :: "int option"
  v_body_temperature :: "rat option"

record link =
  l_id :: uuid
  l_patient_id :: uuid
  l_doctor_id :: uuid
  l_patient_selected :: bool
  l_doctor_selected :: bool

record db =
  profiles :: "profile list"
  patient_profiles :: "patient_profile list"
  doctor_profiles :: "doctor_profile list"
  habits :: "habit list"
  vitals :: "vital list"
  doctor_patient_links :: "link list"

datatype dberror =
    MultipleRows
  | NoRows
  | UniqueViolation
  | ForeignKeyViolation
  | CheckViolation
  | OutOfRange
  | InvalidDate
  | InvalidText

text \<open>The client library's \<^verbatim>\<open>.maybeSingle()\<close> and \<^verbatim>\<open>.single()\<close> on a query result.\<close>

fun maybeSingle :: "'a list \<Rightarrow> dberror + 'a option" where
  "maybeSingle [] = Inr None"
| "maybeSingle [x] = Inr (Some x)"
| "maybeSingle (x # y # zs) = Inl MultipleRows"

fun single :: "'a list \<Rightarrow> dberror + 'a" where
  "single [] = Inl NoRows"
| "single [x] = Inr x"
| "single (x # y # zs) = Inl MultipleRows"

text \<open>\<^verbatim>\<open>const { data } = await ...\<close>: the error of a query is dropped, the data is null then.\<close>

fun data_of :: "dberror + 'a option \<Rightarrow> 'a option" where
  "data_of (Inl e) = None"
| "data_of (Inr x) = x"

text \<open>A number written into an \<^verbatim>\<open>int\<close> column: a whole number of 32 bits, or an error.\<close>

definition int4 :: "rat \<Rightarrow> dberror + int" where
  "int4 x =
     (if of_int \<lfloor>x\<rfloor> = x \<and> - (2 ^ 31) \<le> \<lfloor>x\<rfloor> \<and> \<lfloor>x\<rfloor> < 2 ^ 31 then Inr \<lfloor>x\<rfloor> else Inl OutOfRange)"

definition int4_opt :: "rat option \<Rightarrow> dberror + int option" where
  "int4_opt x =
     (case x of
        None \<Rightarrow> Inr None
      | Some n \<Rightarrow> (case int4 n of Inl e \<Rightarrow> Inl e | Inr i \<Rightarrow> Inr (Some i)))"

text \<open>
  The date of a request body: a falsy value (absent, null, empty), a value the store does
  not read as a date, or a value the store reads as the given day. How the store reads a
  date literal is outside the repository.
\<close>

datatype datearg = NoDate | BadDate | Day int

subsection \<open>Rows as the handler builds them\<close>

record habit_row =
  hr_user_id :: uuid
  hr_date :: datearg
  hr_steps :: rat
  hr_water_cups :: rat
  hr_sleep_hours :: rat

record vital_row =
  vr_user_id :: uuid
  vr_date :: datearg
  vr_blood_glucose :: "rat option"
  vr_blood_pressure_sys :: "rat option"
  vr_blood_pressure_dia :: "rat option"
  vr_heart_rate :: "rat option"
  vr_body_temperature :: "rat option"

text \<open>The store converts a row to the column types; the first failing column is the error.\<close>

definition store_habit :: "uuid \<Rightarrow> habit_row \<Rightarrow> dberror + habit" where
  "store_habit i r =
     (case hr_date r of
        Day d \<Rightarrow>
          (case int4 (hr_steps r) of
             Inl e \<Rightarrow> Inl e
           | Inr s \<Rightarrow>
               (case int4 (hr_water_cups r) of
                  Inl e \<Rightarrow> Inl e
                | Inr w \<Rightarrow>
                    Inr \<lparr>h_id = i, h_user_id = hr_user_id r, h_date = d, h_steps = s,
                         h_water_cups = w, h_sleep_hours = hr_sleep_hours r\<rparr>))
      | _ \<Rightarrow> Inl InvalidDate)"

definition store_vital :: "uuid \<Rightarrow> vital_row \<Rightarrow> dberror + vital" where
  "store_vital i r =
     (case vr_date r of
        Day d \<Rightarrow>
          (case int4_opt (vr_blood_glucose r) of
             Inl e \<Rightarrow> Inl e
           | Inr g \<Rightarrow>
               (case int4_opt (vr_blood_pressure_sys r) of
                  Inl e \<Rightarrow> Inl e
                | Inr s \<Rightarrow>
                    (case int4_opt (vr_blood_pressure_dia r) of
                       Inl e \<Rightarrow> Inl e
                     | Inr dia \<Rightarrow>
                         (case int4_opt (vr_heart_rate r) of
                            Inl e \<Rightarrow> Inl e
                          | Inr h \<Rightarrow>
                              Inr \<lparr>v_id = i, v_user_id = vr_user_id r, v_date = d,
                                   v_blood_glucose = g, v_blood_pressure_sys = s,
                                   v_blood_pressure_dia = dia, v_heart_rate = h,
                                   v_body_temperature = vr_body_temperature r\<rparr>))))
      | _ \<Rightarrow> Inl InvalidDate)"

subsection \<open>Inserts and updates under the constraints of the schema\<close>

definition has_profile :: "db \<Rightarrow> uuid \<Rightarrow> bool" where
  "has_profile d u = (\<exists>p \<in> set (profiles d). p_id p = u)"

text \<open>\<^verbatim>\<open>habits\<close>: primary key \<^verbatim>\<open>id\<close>, \<^verbatim>\<open>user_id references profiles(id)\<close>,
  \<^verbatim>\<open>unique(user_id, date)\<close>.\<close>

definition insert_habit :: "uuid \<Rightarrow> habit_row \<Rightarrow> db \<Rightarrow> dberror + db" where
  "insert_habit i r d =
     (case store_habit i r of
        Inl e \<Rightarrow> Inl e
      | Inr h \<Rightarrow>
          if \<not> has_profile d (h_user_id h) then Inl ForeignKeyViolation
          else if \<exists>x \<in> set (habits d).
                    h_id x = i \<or> (h_user_id x = h_user_id h \<and> h_date x = h_date h)
          then Inl UniqueViolation
          else Inr (d\<lparr>habits := habits d @ [h]\<rparr>))"

text \<open>\<^verbatim>\<open>.update(row).eq('id', i)\<close>: every row with that id takes the columns of
  \<open>row\<close> and keeps its id.\<close>

definition update_habit :: "habit_row \<Rightarrow> uuid \<Rightarrow> db \<Rightarrow> dberror + db" where
  "update_habit r i d =
     (case store_habit i r of
        Inl e \<Rightarrow> Inl e
      | Inr h \<Rightarrow>
          if \<forall>x \<in> set (habits d). h_id x \<noteq> i then Inr d
          else if \<not> has_profile d (h_user_id h) then Inl ForeignKeyViolation
          else if \<exists>x \<in> set (habits d).
                    h_id x \<noteq> i \<and> h_user_id x = h_user_id h \<and> h_date x = h_date h
          then Inl UniqueViolation
          else Inr (d\<lparr>habits := map (\<lambda>x. if h_id x = i then h else x) (habits d)\<rparr>))"

definition insert_vital :: "uuid \<Rightarrow> vital_row \<Rightarrow> db \<Rightarrow> dberror + db" where
  "insert_vital i r d =
     (case store_vital i r of
        Inl e \<Rightarrow> Inl e
      | Inr v \<Rightarrow>
          if \<not> has_profile d (v_user_id v) then Inl ForeignKeyViolation
          else if \<exists>x \<in> set (vitals d).
                    v_id x = i \<or> (v_user_id x = v_user_id v \<and> v_date x = v_date v)
          then Inl UniqueViolation
          else Inr (d\<lparr>vitals := vitals d @ [v]\<rparr>))"

definition update_vital :: "vital_row \<Rightarrow> uuid \<Rightarrow> db \<Rightarrow> dberror + db" where
  "update_vital r i d =
     (case store_vital i r of
        Inl e \<Rightarrow> Inl e
      | Inr v \<Rightarrow>
          if \<forall>x \<in> set (vitals d). v_id x \<noteq> i then Inr d
          else if \<not> has_profile d (v_user_id v) then Inl ForeignKeyViolation
          else if \<exists>x \<in> set (vitals d).
                    v_id x \<noteq> i \<and> v_user_id x = v_user_id v \<and> v_date x = v_date v
          then Inl UniqueViolation
          else Inr (d\<lparr>vitals := map (\<lambda>x. if v_id x = i then v else x) (vitals d)\<rparr>))"

text \<open>\<^verbatim>\<open>doctor_patient_links\<close>: primary key \<^verbatim>\<open>id\<close>, both parties reference
  \<^verbatim>\<open>profiles(id)\<close>, \<^verbatim>\<open>unique(patient_id, doctor_id)\<close>.\<close>

definition insert_link :: "link \<Rightarrow> db \<Rightarrow> dberror + db" where
  "insert_link l d =
     (if \<not> has_profile d (l_patient_id l) \<or> \<not> has_profile d (l_doctor_id l)
      then Inl ForeignKeyViolation
      else if \<exists>x \<in> set (doctor_patient_links d).
                l_id x = l_id l \<or> (l_patient_id x = l_patient_id l \<and> l_doctor_id x = l_doctor_id l)
      then Inl UniqueViolation
      else Inr (d\<lparr>doctor_patient_links := doctor_patient_links d @ [l]\<rparr>))"


section \<open>Requests and responses\<close>

text \<open>
  \<open>auth_user\<close> is what \<^verbatim>\<open>getAuthUser(req)\<close> returns: the identity provider validates the
  bearer credential outside the repository, so a request carries the outcome. The
  environment of one request is the UTC date of the server clock and the identifier the
  store would generate for a row inserted during the request.
\<close>

record auth_user =
  u_id :: uuid
  u_email :: "string option"

record env =
  today :: int
  new_id :: uuid

text \<open>A text property of a JSON body: absent, null or a string. A value of another JSON
  type in such a position is outside the model.\<close>

datatype 'a jsfield = Undefined | Null | Val 'a

record patient_payload =
  pa_age :: jsval
  pa_weight :: jsval
  pa_height :: jsval
  pa_gender :: "string jsfield"
  pa_nationality :: "string jsfield"
  pa_medical_history :: "string jsfield"
  pa_current_medications :: "string jsfield"
  pa_allergies :: "string jsfield"
  pa_family_history :: "string jsfield"
  pa_lifestyle_factors :: "string jsfield"

record doctor_payload =
  da_gender :: "string jsfield"
  da_age :: jsval
  da_nationality :: "string jsfield"
  da_level_of_education :: "string jsfield"
  da_medical_school :: "string jsfield"
  da_year_of_education :: jsval
  da_medical_license_number :: "string jsfield"
  da_license_region :: "string jsfield"
  da_speciality :: "string jsfield"
  da_years_of_experience :: jsval
  da_current_workplace :: "string jsfield"
  da_languages_spoken :: "string jsfield"

record body =
  b_date :: datearg
  b_steps :: jsval
  b_water_cups :: jsval
  b_sleep_hours :: jsval
  b_blood_glucose :: jsval
  b_blood_pressure_sys :: jsval
  b_blood_pressure_dia :: jsval
  b_heart_rate :: jsval
  b_body_temperature :: jsval
  b_doctor_id :: "string jsfield"
  b_patient_email :: "string jsfield"
  b_name :: "string jsfield"
  b_role :: "string jsfield"
  b_patient :: "patient_payload option"
  b_doctor :: "doctor_payload option"

definition empty_body :: body where
  "empty_body =
     \<lparr>b_date = NoDate, b_steps = JUndefined, b_water_cups = JUndefined,
      b_sleep_hours = JUndefined, b_blood_glucose = JUndefined,
      b_blood_pressure_sys = JUndefined, b_blood_pressure_dia = JUndefined,
      b_heart_rate = JUndefined, b_body_temperature = JUndefined,
      b_doctor_id = Undefined, b_patient_email = Undefined, b_name = Undefined,
      b_role = Undefined, b_patient = None, b_doctor = None\<rparr>"

definition empty_patient :: patient_payload where
  "empty_patient =
     \<lparr>pa_age = JUndefined, pa_weight = JUndefined, pa_height = JUndefined,
      pa_gender = Undefined, pa_nationality = Undefined, pa_medical_history = Undefined,
      pa_current_medications = Undefined, pa_allergies = Undefined,
      pa_family_history = Undefined, pa_lifestyle_factors = Undefined\<rparr>"

definition empty_doctor :: doctor_payload where
  "empty_doctor =
     \<lparr>da_gender = Undefined, da_age = JUndefined, da_nationality = Undefined,
      da_level_of_education = Undefined, da_medical_school = Undefined,
      da_year_of_education = JUndefined, da_medical_license_number = Undefined,
      da_license_region = Undefined, da_speciality = Undefined,
      da_years_of_experience = JUndefined, da_current_workplace = Undefined,
      da_languages_spoken = Undefined\<rparr>"

record request =
  r_method :: string
  r_auth :: "auth_user option"
  r_action :: "string option"
  r_qp_user_id :: "string option"
  r_qp_rangeDays :: "string option"
  r_body :: body

record habit_item =
  hi_date :: int
  hi_steps :: int
  hi_water_cups :: int
  hi_sleep_hours :: rat

record vital_item =
  vi_date :: int
  vi_blood_glucose :: "int option"
  vi_blood_pressure_sys :: "int option"
  vi_blood_pressure_dia :: "int option"
  vi_heart_rate :: "int option"
  vi_body_temperature :: "rat option"

record doctor_item =
  di_id :: uuid
  di_name :: "string option"
  di_email :: "string option"
  di_speciality :: "string option"
  di_languages_spoken :: "string option"

record linked_doctor =
  ld_id :: uuid
  ld_name :: "string option"
  ld_speciality :: "string option"

record linked_patient =
  lp_id :: uuid
  lp_name :: "string option"
  lp_email :: "string option"

datatype reply =
    NoContent
  | Error string
  | ServerError dberror
  | Me "profile option"
  | ProfilePatient profile "patient_profile option"
  | ProfileDoctor profile "doctor_profile option"
  | ProfileOnly profile
  | UpsertOk "profile option"
  | Ok
  | HabitItems "habit_item list"
  | VitalItems "vital_item list"
  | DoctorItems "doctor_item list"
  | LinkedDoctors "linked_doctor list"
  | LinkedPatients "linked_patient list"

datatype response = Resp nat reply

fun status :: "response \<Rightarrow> nat" where
  "status (Resp n r) = n"

fun reply_of :: "response \<Rightarrow> reply" where
  "reply_of (Resp n r) = r"

text \<open>Truthiness of a string that may be absent, and \<^verbatim>\<open>s || null\<close>.\<close>

fun truthy_str :: "string option \<Rightarrow> string option" where
  "truthy_str None = None"
| "truthy_str (Some s) = (if s = [] then None else Some s)"

fun truthy_text :: "string jsfield \<Rightarrow> string option" where
  "truthy_text (Val s) = (if s = [] then None else Some s)"
| "truthy_text Undefined = None"
| "truthy_text Null = None"

text \<open>A query parameter is a string or absent.\<close>

fun qp_val :: "string option \<Rightarrow> jsval" where
  "qp_val None = JUndefined"
| "qp_val (Some s) = JStr s"


section \<open>The handler\<close>

text \<open>\<^verbatim>\<open>getProfile(userId)\<close>: \<^verbatim>\<open>.single()\<close>, null on error.\<close>

definition getProfile :: "db \<Rightarrow> uuid \<Rightarrow> profile option" where
  "getProfile d userId =
     (case single (filter (\<lambda>p. p_id p = userId) (profiles d)) of
        Inl e \<Rightarrow> None
      | Inr prof \<Rightarrow> Some prof)"

text \<open>\<^verbatim>\<open>canDoctorView(doctorId, patientId)\<close>:
  \<^verbatim>\<open>if (error || !data) return false; return !!(data.patient_selected && data.doctor_selected);\<close>\<close>

definition canDoctorView :: "db \<Rightarrow> idarg \<Rightarrow> idarg \<Rightarrow> bool" where
  "canDoctorView d doctorId patientId =
     (case (store_reads doctorId, store_reads patientId) of
        (Some dv, Some pv) \<Rightarrow>
          (case maybeSingle (filter (\<lambda>l. l_doctor_id l = dv \<and> l_patient_id l = pv)
                               (doctor_patient_links d)) of
             Inl e \<Rightarrow> False
           | Inr None \<Rightarrow> False
           | Inr (Some l) \<Rightarrow> l_patient_selected l \<and> l_doctor_selected l)
      | _ \<Rightarrow> False)"

text \<open>
  \<^verbatim>\<open>daysAgoISO(days)\<close>: the date \<open>days\<close> days before today, as the ten characters
  \<^verbatim>\<open>YYYY-MM-DD\<close>. The function runs with the clock in UTC. The ten characters are a date
  for the years 0001 to 9999 only (day numbers \<open>-719162\<close> to \<open>2932896\<close>): beyond, either
  \<^verbatim>\<open>toISOString\<close> throws or the store rejects the literal, and the request ends in the
  handler's \<^verbatim>\<open>catch\<close>; \<open>None\<close> stands for both.
\<close>

definition daysAgoISO :: "env \<Rightarrow> rat \<Rightarrow> int option" where
  "daysAgoISO e days =
     (let dt = today e - \<lfloor>days\<rfloor>
      in if - 719162 \<le> dt \<and> dt \<le> 2932896 then Some dt else None)"

text \<open>\<^verbatim>\<open>getOrCreateLink(patientId, doctorId)\<close>: the row of the pair, inserted with both
  flags false when the lookup finds none; the insert's error is thrown. With an argument the
  store cannot read as a uuid the lookup fails, its error is dropped, and the insert fails.\<close>

definition getOrCreateLink :: "env \<Rightarrow> idarg \<Rightarrow> idarg \<Rightarrow> db \<Rightarrow> dberror + (link \<times> db)" where
  "getOrCreateLink e patientId doctorId d =
     (case (store_reads patientId, store_reads doctorId) of
        (Some pv, Some dv) \<Rightarrow>
          (case data_of (maybeSingle (filter (\<lambda>l. l_patient_id l = pv \<and> l_doctor_id l = dv)
                                        (doctor_patient_links d))) of
             Some existing \<Rightarrow> Inr (existing, d)
           | None \<Rightarrow>
               (let l = \<lparr>l_id = new_id e, l_patient_id = pv, l_doctor_id = dv,
                         l_patient_selected = False, l_doctor_selected = False\<rparr>
                in case insert_link l d of Inl err \<Rightarrow> Inl err | Inr d' \<Rightarrow> Inr (l, d')))
      | _ \<Rightarrow> Inl InvalidText)"

subsection \<open>Profiles\<close>

text \<open>
  \<^verbatim>\<open>upsert(base, { onConflict: 'id' })\<close> on \<^verbatim>\<open>profiles\<close>. A property that is
  \<^verbatim>\<open>undefined\<close> is not sent: the column keeps its value on conflict and is null on
  insert. The table has \<^verbatim>\<open>email text unique\<close> and
  \<^verbatim>\<open>check (role in ('patient','doctor'))\<close>.
\<close>

fun column :: "string jsfield \<Rightarrow> string option \<Rightarrow> string option" where
  "column Undefined old = old"
| "column Null old = None"
| "column (Val s) old = Some s"

definition upsert_profile ::
  "uuid \<Rightarrow> string option \<Rightarrow> string jsfield \<Rightarrow> string jsfield \<Rightarrow> db \<Rightarrow> dberror + db" where
  "upsert_profile i email name role d =
     (let old = find (\<lambda>p. p_id p = i) (profiles d);
          row = \<lparr>p_id = i,
                 p_email = (case email of
                              Some m \<Rightarrow> Some m
                            | None \<Rightarrow> (case old of None \<Rightarrow> None | Some p \<Rightarrow> p_email p)),
                 p_name = column name (case old of None \<Rightarrow> None | Some p \<Rightarrow> p_name p),
                 p_role = column role (case old of None \<Rightarrow> None | Some p \<Rightarrow> p_role p)\<rparr>
      in if p_role row \<notin> {None, Some ''patient'', Some ''doctor''} then Inl CheckViolation
         else if p_email row \<noteq> None
                 \<and> (\<exists>p \<in> set (profiles d). p_id p \<noteq> i \<and> p_email p = p_email row)
         then Inl UniqueViolation
         else Inr (d\<lparr>profiles :=
                      (if old = None then profiles d @ [row]
                       else map (\<lambda>p. if p_id p = i then row else p) (profiles d))\<rparr>))"

definition patient_row :: "uuid \<Rightarrow> patient_payload \<Rightarrow> dberror + patient_profile" where
  "patient_row userId p =
     (case int4_opt (toInt (pa_age p)) of
        Inl e \<Rightarrow> Inl e
      | Inr a \<Rightarrow>
          Inr \<lparr>pp_user_id = userId, pp_age = a,
               pp_weight = toFloat (pa_weight p), pp_height = toFloat (pa_height p),
               pp_gender = truthy_text (pa_gender p),
               pp_nationality = truthy_text (pa_nationality p),
               pp_medical_history = truthy_text (pa_medical_history p),
               pp_current_medications = truthy_text (pa_current_medications p),
               pp_allergies = truthy_text (pa_allergies p),
               pp_family_history = truthy_text (pa_family_history p),
               pp_lifestyle_factors = truthy_text (pa_lifestyle_factors p)\<rparr>)"

definition doctor_row :: "uuid \<Rightarrow> doctor_payload \<Rightarrow> dberror + doctor_profile" where
  "doctor_row userId p =
     (case int4_opt (toInt (da_age p)) of
        Inl e \<Rightarrow> Inl e
      | Inr a \<Rightarrow>
          (case int4_opt (toInt (da_year_of_education p)) of
             Inl e \<Rightarrow> Inl e
           | Inr y \<Rightarrow>
               (case int4_opt (toInt (da_years_of_experience p)) of
                  Inl e \<Rightarrow> Inl e
                | Inr x \<Rightarrow>
                    Inr \<lparr>dp_user_id = userId,
                         dp_gender = truthy_text (da_gender p),
                         dp_age = a,
                         dp_nationality = truthy_text (da_nationality p),
                         dp_level_of_education = truthy_text (da_level_of_education p),
                         dp_medical_school = truthy_text (da_medical_school p),
                         dp_year_of_education = y,
                         dp_medical_license_number = truthy_text (da_medical_license_number p),
                         dp_license_region = truthy_text (da_license_region p),
                         dp_speciality = truthy_text (da_speciality p),
                         dp_years_of_experience = x,
                         dp_current_workplace = truthy_text (da_current_workplace p),
                         dp_languages_spoken = truthy_text (da_languages_spoken p)\<rparr>)))"

text \<open>\<^verbatim>\<open>upsert(row, { onConflict: 'user_id' })\<close> on a detail table: every column is sent.\<close>

definition upsert_patient :: "patient_profile \<Rightarrow> db \<Rightarrow> dberror + db" where
  "upsert_patient row d =
     (if \<not> has_profile d (pp_user_id row) then Inl ForeignKeyViolation
      else Inr (d\<lparr>patient_profiles :=
                   (if \<exists>x \<in> set (patient_profiles d). pp_user_id x = pp_user_id row
                    then map (\<lambda>x. if pp_user_id x = pp_user_id row then row else x)
                           (patient_profiles d)
                    else patient_profiles d @ [row])\<rparr>))"

definition upsert_doctor :: "doctor_profile \<Rightarrow> db \<Rightarrow> dberror + db" where
  "upsert_doctor row d =
     (if \<not> has_profile d (dp_user_id row) then Inl ForeignKeyViolation
      else Inr (d\<lparr>doctor_profiles :=
                   (if \<exists>x \<in> set (doctor_profiles d). dp_user_id x = dp_user_id row
                    then map (\<lambda>x. if dp_user_id x = dp_user_id row then row else x)
                           (doctor_profiles d)
                    else doctor_profiles d @ [row])\<rparr>))"

text \<open>\<^verbatim>\<open>ensureProfile(userId, email, payload)\<close>: the thrown error, if any, and the store as
  the writes done before it left it.\<close>

definition ensureProfile :: "uuid \<Rightarrow> string option \<Rightarrow> body \<Rightarrow> db \<Rightarrow> dberror option \<times> db" where
  "ensureProfile userId email payload d =
     (case upsert_profile userId email (b_name payload) (b_role payload) d of
        Inl pErr \<Rightarrow> (Some pErr, d)
      | Inr d1 \<Rightarrow>
          if b_role payload = Val ''patient'' then
            (case patient_row userId (case b_patient payload of None \<Rightarrow> empty_patient | Some p \<Rightarrow> p) of
               Inl err \<Rightarrow> (Some err, d1)
             | Inr row \<Rightarrow>
                 (case upsert_patient row d1 of
                    Inl err \<Rightarrow> (Some err, d1)
                  | Inr d2 \<Rightarrow> (None, d2)))
          else if b_role payload = Val ''doctor'' then
            (case doctor_row userId (case b_doctor payload of None \<Rightarrow> empty_doctor | Some p \<Rightarrow> p) of
               Inl err \<Rightarrow> (Some err, d1)
             | Inr row \<Rightarrow>
                 (case upsert_doctor row d1 of
                    Inl err \<Rightarrow> (Some err, d1)
                  | Inr d2 \<Rightarrow> (None, d2)))
          else (None, d1))"


subsection \<open>The cases of the handler\<close>

text \<open>
  The block that \<^verbatim>\<open>profile.get\<close>, \<^verbatim>\<open>habits.fetch\<close> and \<^verbatim>\<open>vitals.fetch\<close> each
  repeat:
  \<^verbatim>\<open>if (forUserId !== user.id) { const profile = await getProfile(user.id);
  if (profile?.role !== 'doctor') return json(res, 403, { error: 'Forbidden' });
  const can = await canDoctorView(user.id, forUserId);
  if (!can) return json(res, 403, { error: 'No permission' }); }\<close>.
  The result is the response returned early, if any.
\<close>

definition cross_account_check :: "db \<Rightarrow> auth_user \<Rightarrow> idarg \<Rightarrow> response option" where
  "cross_account_check d user forUserId =
     (if id_text forUserId \<noteq> u_id user then
        (if (case getProfile d (u_id user) of None \<Rightarrow> None | Some profile \<Rightarrow> p_role profile)
              \<noteq> Some ''doctor''
         then Some (Resp 403 (Error ''Forbidden''))
         else if \<not> canDoctorView d (Held (u_id user)) forUserId
         then Some (Resp 403 (Error ''No permission''))
         else None)
      else None)"

text \<open>\<^verbatim>\<open>.eq('id', forUserId).maybeSingle()\<close> and the two detail lookups: a text the
  store cannot read makes the query fail, which the handler treats as no row.\<close>

definition handle_profile_get :: "auth_user \<Rightarrow> request \<Rightarrow> db \<Rightarrow> response" where
  "handle_profile_get user rq d =
     (case truthy_str (r_qp_user_id rq) of
        None \<Rightarrow> Resp 400 (Error ''user_id required'')
      | Some forUserId \<Rightarrow>
          (case cross_account_check d user (Given forUserId) of
             Some denied \<Rightarrow> denied
           | None \<Rightarrow>
               (case uuid_in forUserId of
                  None \<Rightarrow> Resp 404 (Error ''Not found'')
                | Some tv \<Rightarrow>
                    (case data_of (maybeSingle (filter (\<lambda>p. p_id p = tv) (profiles d))) of
                       None \<Rightarrow> Resp 404 (Error ''Not found'')
                     | Some prof \<Rightarrow>
                         if p_role prof = Some ''patient'' then
                           Resp 200 (ProfilePatient prof
                             (data_of (maybeSingle
                                (filter (\<lambda>x. pp_user_id x = tv) (patient_profiles d)))))
                         else if p_role prof = Some ''doctor'' then
                           Resp 200 (ProfileDoctor prof
                             (data_of (maybeSingle
                                (filter (\<lambda>x. dp_user_id x = tv) (doctor_profiles d)))))
                         else Resp 200 (ProfileOnly prof)))))"

definition handle_profile_upsert :: "auth_user \<Rightarrow> body \<Rightarrow> db \<Rightarrow> response \<times> db" where
  "handle_profile_upsert user payload d =
     (case ensureProfile (u_id user) (u_email user) payload d of
        (Some err, d') \<Rightarrow> (Resp 500 (ServerError err), d')
      | (None, d') \<Rightarrow> (Resp 200 (UpsertOk (getProfile d' (u_id user))), d'))"

text \<open>\<^verbatim>\<open>const date = body.date || new Date().toISOString().slice(0, 10);\<close>\<close>

fun date_or_today :: "env \<Rightarrow> datearg \<Rightarrow> datearg" where
  "date_or_today e NoDate = Day (today e)"
| "date_or_today e BadDate = BadDate"
| "date_or_today e (Day n) = Day n"

definition habits_row :: "env \<Rightarrow> auth_user \<Rightarrow> body \<Rightarrow> habit_row" where
  "habits_row e user b =
     \<lparr>hr_user_id = u_id user,
      hr_date = date_or_today e (b_date b),
      hr_steps = or_default (toInt (b_steps b)) 0,
      hr_water_cups = or_default (toInt (b_water_cups b)) 0,
      hr_sleep_hours = or_default (toFloat (b_sleep_hours b)) 0\<rparr>"

text \<open>The lookup \<^verbatim>\<open>.eq('user_id', user.id).eq('date', date).maybeSingle()\<close>; a date the
  store cannot read makes the query fail, and the failure is dropped.\<close>

definition existing_habit :: "db \<Rightarrow> uuid \<Rightarrow> datearg \<Rightarrow> habit option" where
  "existing_habit d userId date =
     (case date of
        Day n \<Rightarrow> data_of (maybeSingle (filter (\<lambda>x. h_user_id x = userId \<and> h_date x = n) (habits d)))
      | _ \<Rightarrow> None)"

definition handle_habits_upsert :: "env \<Rightarrow> auth_user \<Rightarrow> body \<Rightarrow> db \<Rightarrow> response \<times> db" where
  "handle_habits_upsert e user b d =
     (let row = habits_row e user b
      in case existing_habit d (u_id user) (hr_date row) of
           Some existing \<Rightarrow>
             (case update_habit row (h_id existing) d of
                Inl err \<Rightarrow> (Resp 500 (ServerError err), d)
              | Inr d' \<Rightarrow> (Resp 200 Ok, d'))
         | None \<Rightarrow>
             (case insert_habit (new_id e) row d of
                Inl err \<Rightarrow> (Resp 500 (ServerError err), d)
              | Inr d' \<Rightarrow> (Resp 200 Ok, d')))"

definition habit_item_of :: "habit \<Rightarrow> habit_item" where
  "habit_item_of x =
     \<lparr>hi_date = h_date x, hi_steps = h_steps x, hi_water_cups = h_water_cups x,
      hi_sleep_hours = h_sleep_hours x\<rparr>"

text \<open>\<^verbatim>\<open>const forUserId = qp.user_id || user.id;\<close>\<close>

definition forUserId_of :: "auth_user \<Rightarrow> request \<Rightarrow> idarg" where
  "forUserId_of user rq =
     (case truthy_str (r_qp_user_id rq) of None \<Rightarrow> Held (u_id user) | Some s \<Rightarrow> Given s)"

definition handle_habits_fetch :: "env \<Rightarrow> auth_user \<Rightarrow> request \<Rightarrow> db \<Rightarrow> response" where
  "handle_habits_fetch e user rq d =
     (let rangeDays = or_default (toInt (qp_val (r_qp_rangeDays rq))) 7;
          forUserId = forUserId_of user rq
      in case cross_account_check d user forUserId of
           Some denied \<Rightarrow> denied
         | None \<Rightarrow>
             (case daysAgoISO e rangeDays of
                None \<Rightarrow> Resp 500 (ServerError InvalidDate)
              | Some since \<Rightarrow>
                  (case store_reads forUserId of
                     None \<Rightarrow> Resp 500 (ServerError InvalidText)
                   | Some tv \<Rightarrow>
                       Resp 200 (HabitItems
                         (map habit_item_of
                            (sort_key (\<lambda>x. - h_date x)
                               (filter (\<lambda>x. h_user_id x = tv \<and> since \<le> h_date x)
                                  (habits d))))))))"

definition vitals_row :: "env \<Rightarrow> auth_user \<Rightarrow> body \<Rightarrow> vital_row" where
  "vitals_row e user b =
     \<lparr>vr_user_id = u_id user,
      vr_date = date_or_today e (b_date b),
      vr_blood_glucose = toInt (b_blood_glucose b),
      vr_blood_pressure_sys = toInt (b_blood_pressure_sys b),
      vr_blood_pressure_dia = toInt (b_blood_pressure_dia b),
      vr_heart_rate = toInt (b_heart_rate b),
      vr_body_temperature = toFloat (b_body_temperature b)\<rparr>"

definition existing_vital :: "db \<Rightarrow> uuid \<Rightarrow> datearg \<Rightarrow> vital option" where
  "existing_vital d userId date =
     (case date of
        Day n \<Rightarrow> data_of (maybeSingle (filter (\<lambda>x. v_user_id x = userId \<and> v_date x = n) (vitals d)))
      | _ \<Rightarrow> None)"

definition handle_vitals_upsert :: "env \<Rightarrow> auth_user \<Rightarrow> body \<Rightarrow> db \<Rightarrow> response \<times> db" where
  "handle_vitals_upsert e user b d =
     (let row = vitals_row e user b
      in case existing_vital d (u_id user) (vr_date row) of
           Some existing \<Rightarrow>
             (case update_vital row (v_id existing) d of
                Inl err \<Rightarrow> (Resp 500 (ServerError err), d)
              | Inr d' \<Rightarrow> (Resp 200 Ok, d'))
         | None \<Rightarrow>
             (case insert_vital (new_id e) row d of
                Inl err \<Rightarrow> (Resp 500 (ServerError err), d)
              | Inr d' \<Rightarrow> (Resp 200 Ok, d')))"

definition vital_item_of :: "vital \<Rightarrow> vital_item" where
  "vital_item_of x =
     \<lparr>vi_date = v_date x, vi_blood_glucose = v_blood_glucose x,
      vi_blood_pressure_sys = v_blood_pressure_sys x,
      vi_blood_pressure_dia = v_blood_pressure_dia x,
      vi_heart_rate = v_heart_rate x, vi_body_temperature = v_body_temperature x\<rparr>"

definition handle_vitals_fetch :: "env \<Rightarrow> auth_user \<Rightarrow> request \<Rightarrow> db \<Rightarrow> response" where
  "handle_vitals_fetch e user rq d =
     (let rangeDays = or_default (toInt (qp_val (r_qp_rangeDays rq))) 7;
          forUserId = forUserId_of user rq
      in case cross_account_check d user forUserId of
           Some denied \<Rightarrow> denied
         | None \<Rightarrow>
             (case daysAgoISO e rangeDays of
                None \<Rightarrow> Resp 500 (ServerError InvalidDate)
              | Some since \<Rightarrow>
                  (case store_reads forUserId of
                     None \<Rightarrow> Resp 500 (ServerError InvalidText)
                   | Some tv \<Rightarrow>
                       Resp 200 (VitalItems
                         (map vital_item_of
                            (sort_key (\<lambda>x. - v_date x)
                               (filter (\<lambda>x. v_user_id x = tv \<and> since \<le> v_date x)
                                  (vitals d))))))))"

text \<open>\<^verbatim>\<open>doctors.list\<close>: the profiles with role doctor that have a detail row (inner join).\<close>

definition handle_doctors_list :: "db \<Rightarrow> response" where
  "handle_doctors_list d =
     Resp 200 (DoctorItems
       (concat (map (\<lambda>p.
          (case filter (\<lambda>x. dp_user_id x = p_id p) (doctor_profiles d) of
             [] \<Rightarrow> []
           | dp # _ \<Rightarrow>
               [\<lparr>di_id = p_id p, di_name = p_name p, di_email = p_email p,
                 di_speciality = truthy_str (dp_speciality dp),
                 di_languages_spoken = truthy_str (dp_languages_spoken dp)\<rparr>]))
          (filter (\<lambda>p. p_role p = Some ''doctor'') (profiles d)))))"

text \<open>\<^verbatim>\<open>.update({ patient_selected: true }).eq('id', link.id)\<close> and its twin.\<close>

definition set_patient_selected :: "uuid \<Rightarrow> db \<Rightarrow> db" where
  "set_patient_selected i d =
     d\<lparr>doctor_patient_links :=
         map (\<lambda>l. if l_id l = i then l\<lparr>l_patient_selected := True\<rparr> else l)
           (doctor_patient_links d)\<rparr>"

definition set_doctor_selected :: "uuid \<Rightarrow> db \<Rightarrow> db" where
  "set_doctor_selected i d =
     d\<lparr>doctor_patient_links :=
         map (\<lambda>l. if l_id l = i then l\<lparr>l_doctor_selected := True\<rparr> else l)
           (doctor_patient_links d)\<rparr>"

definition handle_link_select :: "env \<Rightarrow> auth_user \<Rightarrow> body \<Rightarrow> db \<Rightarrow> response \<times> db" where
  "handle_link_select e user b d =
     (case getProfile d (u_id user) of
        None \<Rightarrow> (Resp 400 (Error ''Complete profile first''), d)
      | Some myProfile \<Rightarrow>
          if p_role myProfile = Some ''patient'' then
            (case truthy_text (b_doctor_id b) of
               None \<Rightarrow> (Resp 400 (Error ''doctor_id required''), d)
             | Some doctorId \<Rightarrow>
                 (case getOrCreateLink e (Held (u_id user)) (Given doctorId) d of
                    Inl err \<Rightarrow> (Resp 500 (ServerError err), d)
                  | Inr (link, d') \<Rightarrow> (Resp 200 Ok, set_patient_selected (l_id link) d')))
          else if p_role myProfile = Some ''doctor'' then
            (case truthy_text (b_patient_email b) of
               None \<Rightarrow> (Resp 400 (Error ''patient_email required''), d)
             | Some patientEmail \<Rightarrow>
                 (case data_of (maybeSingle
                         (filter (\<lambda>p. p_email p = Some patientEmail \<and> p_role p = Some ''patient'')
                            (profiles d))) of
                    None \<Rightarrow> (Resp 404 (Error ''Patient not found''), d)
                  | Some patient \<Rightarrow>
                      (case getOrCreateLink e (Held (p_id patient)) (Held (u_id user)) d of
                         Inl err \<Rightarrow> (Resp 500 (ServerError err), d)
                       | Inr (link, d') \<Rightarrow> (Resp 200 Ok, set_doctor_selected (l_id link) d'))))
          else (Resp 403 (Error ''Forbidden''), d))"

text \<open>\<^verbatim>\<open>link.list\<close>: the mutually selected counterparts, with the joined name columns.\<close>

definition name_of :: "db \<Rightarrow> uuid \<Rightarrow> string option" where
  "name_of d i = (case find (\<lambda>p. p_id p = i) (profiles d) of None \<Rightarrow> None | Some p \<Rightarrow> truthy_str (p_name p))"

definition email_of :: "db \<Rightarrow> uuid \<Rightarrow> string option" where
  "email_of d i = (case find (\<lambda>p. p_id p = i) (profiles d) of None \<Rightarrow> None | Some p \<Rightarrow> truthy_str (p_email p))"

definition speciality_of :: "db \<Rightarrow> uuid \<Rightarrow> string option" where
  "speciality_of d i =
     (case find (\<lambda>x. dp_user_id x = i) (doctor_profiles d) of
        None \<Rightarrow> None
      | Some x \<Rightarrow> truthy_str (dp_speciality x))"

definition handle_link_list :: "auth_user \<Rightarrow> db \<Rightarrow> response" where
  "handle_link_list user d =
     (case getProfile d (u_id user) of
        None \<Rightarrow> Resp 400 (Error ''No profile'')
      | Some myProfile \<Rightarrow>
          if p_role myProfile = Some ''patient'' then
            Resp 200 (LinkedDoctors
              (map (\<lambda>row. \<lparr>ld_id = l_doctor_id row, ld_name = name_of d (l_doctor_id row),
                           ld_speciality = speciality_of d (l_doctor_id row)\<rparr>)
                 (filter (\<lambda>l. l_patient_id l = u_id user \<and> l_patient_selected l \<and> l_doctor_selected l)
                    (doctor_patient_links d))))
          else if p_role myProfile = Some ''doctor'' then
            Resp 200 (LinkedPatients
              (map (\<lambda>row. \<lparr>lp_id = l_patient_id row, lp_name = name_of d (l_patient_id row),
                           lp_email = email_of d (l_patient_id row)\<rparr>)
                 (filter (\<lambda>l. l_doctor_id l = u_id user \<and> l_patient_selected l \<and> l_doctor_selected l)
                    (doctor_patient_links d))))
          else Resp 403 (Error ''Forbidden''))"

subsection \<open>Dispatch\<close>

text \<open>
  \<^verbatim>\<open>export default async function handler(req, res)\<close>: the response and the store after
  the request. The body is read for \<^verbatim>\<open>POST\<close> only and is the empty object otherwise.
\<close>

definition handler :: "env \<Rightarrow> request \<Rightarrow> db \<Rightarrow> response \<times> db" where
  "handler e rq d =
     (if r_method rq = ''OPTIONS'' then (Resp 204 NoContent, d)
      else
        (case r_auth rq of
           None \<Rightarrow> (Resp 401 (Error ''Unauthorized''), d)
         | Some user \<Rightarrow>
             (let b = (if r_method rq = ''POST'' then r_body rq else empty_body);
                  action = r_action rq
              in if action = Some ''me'' then (Resp 200 (Me (getProfile d (u_id user))), d)
                 else if action = Some ''profile.get'' then (handle_profile_get user rq d, d)
                 else if action = Some ''profile.upsert'' then handle_profile_upsert user b d
                 else if action = Some ''habits.upsert'' then handle_habits_upsert e user b d
                 else if action = Some ''habits.fetch'' then (handle_habits_fetch e user rq d, d)
                 else if action = Some ''vitals.upsert'' then handle_vitals_upsert e user b d
                 else if action = Some ''vitals.fetch'' then (handle_vitals_fetch e user rq d, d)
                 else if action = Some ''doctors.list'' then (handle_doctors_list d, d)
                 else if action = Some ''link.select'' then handle_link_select e user b d
                 else if action = Some ''link.list'' then (handle_link_list user d, d)
                 else (Resp 400 (Error ''Unknown action''), d))))"

text \<open>A run of requests, each with its environment, from a store.\<close>

fun run :: "(env \<times> request) list \<Rightarrow> db \<Rightarrow> db" where
  "run [] d = d"
| "run ((e, rq) # rest) d = run rest (snd (handler e rq d))"


section \<open>Notions of the specification\<close>

text \<open>The keys of the schema: primary keys, \<^verbatim>\<open>unique(user_id, date)\<close> on both daily
  tables and \<^verbatim>\<open>unique(patient_id, doctor_id)\<close> on the links.\<close>

definition db_ok :: "db \<Rightarrow> bool" where
  "db_ok d =
     (distinct (map p_id (profiles d))
      \<and> distinct (map h_id (habits d))
      \<and> distinct (map (\<lambda>x. (h_user_id x, h_date x)) (habits d))
      \<and> distinct (map v_id (vitals d))
      \<and> distinct (map (\<lambda>x. (v_user_id x, v_date x)) (vitals d))
      \<and> distinct (map l_id (doctor_patient_links d))
      \<and> distinct (map (\<lambda>l. (l_patient_id l, l_doctor_id l)) (doctor_patient_links d)))"

text \<open>The access rule in the specification's words, on accounts: the target is the caller, or
  the caller's profile has role doctor and a link row of (target, caller) has both flags
  true.\<close>

definition spec_permits :: "db \<Rightarrow> uuid \<Rightarrow> uuid \<Rightarrow> bool" where
  "spec_permits d caller target =
     (target = caller
      \<or> ((\<exists>p \<in> set (profiles d). p_id p = caller \<and> p_role p = Some ''doctor'')
         \<and> (\<exists>l \<in> set (doctor_patient_links d).
               l_patient_id l = target \<and> l_doctor_id l = caller
               \<and> l_patient_selected l \<and> l_doctor_selected l)))"

text \<open>
  The rule as the handler applies it to the identifier of a request: the identifier is the
  caller's own as a string, or the caller's profile has role doctor and a link row of (the
  account the store reads the identifier as, caller) has both flags true.
\<close>

definition may_read :: "db \<Rightarrow> auth_user \<Rightarrow> idarg \<Rightarrow> bool" where
  "may_read d user forUserId =
     (id_text forUserId = u_id user
      \<or> ((\<exists>p \<in> set (profiles d). p_id p = u_id user \<and> p_role p = Some ''doctor'')
         \<and> (case store_reads forUserId of
               None \<Rightarrow> False
             | Some tv \<Rightarrow>
                 (\<exists>l \<in> set (doctor_patient_links d).
                    l_patient_id l = tv \<and> l_doctor_id l = u_id user
                    \<and> l_patient_selected l \<and> l_doctor_selected l))))"

text \<open>The account that the \<^verbatim>\<open>user_id\<close> of a request names has a profile row.\<close>

definition target_has_profile :: "db \<Rightarrow> string \<Rightarrow> bool" where
  "target_has_profile d t = (case uuid_in t of None \<Rightarrow> False | Some tv \<Rightarrow> has_profile d tv)"

text \<open>
  The whole number a value starts with, read leniently: after white space and an optional sign,
  the longest run of decimal digits, whatever follows it; none when the run is empty, or when
  the number is too large to be a finite JavaScript number.
\<close>

definition lenient_int :: "jsval \<Rightarrow> int option" where
  "lenient_int v =
     (let (neg, t) = split_sign (skip_ws (to_string v)); z = takeWhile is_digit t
      in if z = [] \<or> dbl_overflow \<le> of_nat (dec_value z) then None
         else Some (if neg then - int (dec_value z) else int (dec_value z)))"

text \<open>A value that is missing or not a number for \<^verbatim>\<open>parseInt\<close>: after white space and a
  sign, its text does not start with a digit. For \<^verbatim>\<open>parseFloat\<close>: nor with a point
  followed by a digit.\<close>

definition not_numeric :: "jsval \<Rightarrow> bool" where
  "not_numeric v =
     (case snd (split_sign (skip_ws (to_string v))) of
        [] \<Rightarrow> True
      | c # cs \<Rightarrow> \<not> is_digit c)"

definition not_decimal :: "jsval \<Rightarrow> bool" where
  "not_decimal v =
     (case snd (split_sign (skip_ws (to_string v))) of
        [] \<Rightarrow> True
      | c # cs \<Rightarrow>
          \<not> is_digit c
          \<and> \<not> (c = CHR ''.'' \<and> (case cs of [] \<Rightarrow> False | c2 # _ \<Rightarrow> is_digit c2)))"


text \<open>A link row and its later state: the same row, no flag gone from true to false.\<close>

definition link_le :: "link \<Rightarrow> link \<Rightarrow> bool" where
  "link_le l l' =
     (l_id l' = l_id l \<and> l_patient_id l' = l_patient_id l \<and> l_doctor_id l' = l_doctor_id l
      \<and> (l_patient_selected l \<longrightarrow> l_patient_selected l')
      \<and> (l_doctor_selected l \<longrightarrow> l_doctor_selected l'))"

definition links_grow :: "link list \<Rightarrow> link list \<Rightarrow> bool" where
  "links_grow ls ls' =
     (length ls \<le> length ls' \<and> list_all2 link_le ls (take (length ls) ls'))"



section \<open>A small store and requests, for evaluation\<close>

definition ex_p1 :: uuid where
  "ex_p1 = ''00000000-0000-4000-8000-0000000000a1''"

definition ex_p1_upper :: string where
  "ex_p1_upper = ''00000000-0000-4000-8000-0000000000A1''"

definition ex_d1 :: uuid where
  "ex_d1 = ''00000000-0000-4000-8000-0000000000d1''"

definition ex_d2 :: uuid where
  "ex_d2 = ''00000000-0000-4000-8000-0000000000d2''"

definition ex_nobody :: uuid where
  "ex_nobody = ''00000000-0000-4000-8000-0000000000ff''"

definition ex_patient :: auth_user where
  "ex_patient = \<lparr>u_id = ex_p1, u_email = Some ''p1@example.org''\<rparr>"

definition ex_doctor :: auth_user where
  "ex_doctor = \<lparr>u_id = ex_d1, u_email = Some ''d1@example.org''\<rparr>"

definition ex_nobody_user :: auth_user where
  "ex_nobody_user = \<lparr>u_id = ex_nobody, u_email = Some ''nobody@example.org''\<rparr>"

definition ex_env :: env where
  "ex_env = \<lparr>today = 19000, new_id = ''n1''\<rparr>"

definition ex_db :: db where
  "ex_db =
     \<lparr>profiles =
        [\<lparr>p_id = ex_p1, p_email = Some ''p1@example.org'', p_name = Some ''Pat'',
          p_role = Some ''patient''\<rparr>,
         \<lparr>p_id = ex_d1, p_email = Some ''d1@example.org'', p_name = Some ''Doc'',
          p_role = Some ''doctor''\<rparr>,
         \<lparr>p_id = ex_d2, p_email = Some ''d2@example.org'', p_name = Some ''Dee'',
          p_role = Some ''doctor''\<rparr>],
      patient_profiles = [],
      doctor_profiles = [],
      habits =
        [\<lparr>h_id = ''h1'', h_user_id = ex_p1, h_date = 18999, h_steps = 5000,
          h_water_cups = 6, h_sleep_hours = 15 / 2\<rparr>],
      vitals =
        [\<lparr>v_id = ''v1'', v_user_id = ex_p1, v_date = 19000, v_blood_glucose = Some 90,
          v_blood_pressure_sys = Some 120, v_blood_pressure_dia = Some 80,
          v_heart_rate = Some 60, v_body_temperature = Some (73 / 2)\<rparr>],
      doctor_patient_links =
        [\<lparr>l_id = ''k1'', l_patient_id = ex_p1, l_doctor_id = ex_d1,
          l_patient_selected = True, l_doctor_selected = True\<rparr>]\<rparr>"

text \<open>A second store: the patient has an old entry, a recent one and one dated ahead, another
  account has an entry too, and the rows are not in order of date.\<close>

definition ex_db2 :: db where
  "ex_db2 =
     ex_db\<lparr>habits :=
        [\<lparr>h_id = ''h0'', h_user_id = ex_p1, h_date = 18980, h_steps = 100,
          h_water_cups = 1, h_sleep_hours = 5\<rparr>,
         \<lparr>h_id = ''h2'', h_user_id = ex_p1, h_date = 19030, h_steps = 7000,
          h_water_cups = 8, h_sleep_hours = 8\<rparr>,
         \<lparr>h_id = ''h3'', h_user_id = ex_d2, h_date = 19000, h_steps = 1,
          h_water_cups = 1, h_sleep_hours = 1\<rparr>,
         \<lparr>h_id = ''h1'', h_user_id = ex_p1, h_date = 18999, h_steps = 5000,
          h_water_cups = 6, h_sleep_hours = 15 / 2\<rparr>],
      vitals :=
        [\<lparr>v_id = ''v0'', v_user_id = ex_p1, v_date = 18990, v_blood_glucose = Some 85,
          v_blood_pressure_sys = None, v_blood_pressure_dia = None,
          v_heart_rate = None, v_body_temperature = None\<rparr>,
         \<lparr>v_id = ''v3'', v_user_id = ex_d1, v_date = 19000, v_blood_glucose = Some 99,
          v_blood_pressure_sys = None, v_blood_pressure_dia = None,
          v_heart_rate = None, v_body_temperature = None\<rparr>,
         \<lparr>v_id = ''v1'', v_user_id = ex_p1, v_date = 18995, v_blood_glucose = Some 90,
          v_blood_pressure_sys = Some 120, v_blood_pressure_dia = Some 80,
          v_heart_rate = Some 60, v_body_temperature = Some (73 / 2)\<rparr>,
         \<lparr>v_id = ''v2'', v_user_id = ex_p1, v_date = 19000, v_blood_glucose = None,
          v_blood_pressure_sys = None, v_blood_pressure_dia = None,
          v_heart_rate = Some 64, v_body_temperature = None\<rparr>]\<rparr>"

definition ex_get :: "string \<Rightarrow> auth_user \<Rightarrow> string option \<Rightarrow> string option \<Rightarrow> request" where
  "ex_get action user target days =
     \<lparr>r_method = ''GET'', r_auth = Some user, r_action = Some action,
      r_qp_user_id = target, r_qp_rangeDays = days, r_body = empty_body\<rparr>"

definition ex_post :: "string \<Rightarrow> auth_user \<Rightarrow> body \<Rightarrow> request" where
  "ex_post action user b =
     \<lparr>r_method = ''POST'', r_auth = Some user, r_action = Some action,
      r_qp_user_id = None, r_qp_rangeDays = None, r_body = b\<rparr>"

definition ex_habits :: "datearg \<Rightarrow> jsval \<Rightarrow> jsval \<Rightarrow> jsval \<Rightarrow> body" where
  "ex_habits dt s w h =
     empty_body\<lparr>b_date := dt, b_steps := s, b_water_cups := w, b_sleep_hours := h\<rparr>"

definition ex_vitals :: "datearg \<Rightarrow> jsval \<Rightarrow> jsval \<Rightarrow> jsval \<Rightarrow> jsval \<Rightarrow> jsval \<Rightarrow> body" where
  "ex_vitals dt g s dia hr t =
     empty_body\<lparr>b_date := dt, b_blood_glucose := g, b_blood_pressure_sys := s,
                b_blood_pressure_dia := dia, b_heart_rate := hr, b_body_temperature := t\<rparr>"


section \<open>Lookups by key\<close>

lemma filter_key_cases:
  assumes "distinct (map f xs)"
  shows "filter (\<lambda>x. f x = k) xs = [] \<or> (\<exists>x. filter (\<lambda>x. f x = k) xs = [x])"
  using assms
proof (induction xs)
  case Nil
  then show ?case by simp
next
  case (Cons a xs)
  show ?case
  proof (cases "f a = k")
    case True
    with Cons.prems have "\<forall>x \<in> set xs. f x \<noteq> k" by (auto simp: image_iff)
    then have "filter (\<lambda>x. f x = k) xs = []" by (simp add: filter_empty_conv)
    with True show ?thesis by simp
  next
    case False
    with Cons show ?thesis by simp
  qed
qed

lemma filter_key_single:
  assumes "distinct (map f xs)" and "x \<in> set xs" and "f x = k"
  shows "filter (\<lambda>y. f y = k) xs = [x]"
proof -
  from assms(2,3) have ne: "filter (\<lambda>y. f y = k) xs \<noteq> []"
    by (auto simp: filter_empty_conv)
  with filter_key_cases[OF assms(1), of k] obtain z where z: "filter (\<lambda>y. f y = k) xs = [z]"
    by auto
  from assms(2,3) have "x \<in> set (filter (\<lambda>y. f y = k) xs)" by simp
  with z show ?thesis by simp
qed

lemma getProfile_Some_iff:
  assumes "distinct (map p_id (profiles d))"
  shows "getProfile d u = Some p \<longleftrightarrow> p \<in> set (profiles d) \<and> p_id p = u"
proof
  assume "getProfile d u = Some p"
  then have "filter (\<lambda>p. p_id p = u) (profiles d) = [p]"
    unfolding getProfile_def
    by (cases "filter (\<lambda>p. p_id p = u) (profiles d)" rule: single.cases) (auto split: sum.splits)
  then have "p \<in> set (filter (\<lambda>p. p_id p = u) (profiles d))" by simp
  then show "p \<in> set (profiles d) \<and> p_id p = u" by simp
next
  assume "p \<in> set (profiles d) \<and> p_id p = u"
  with filter_key_single[OF assms, of p u] show "getProfile d u = Some p"
    by (simp add: getProfile_def)
qed

lemma canDoctorView_imp:
  assumes "canDoctorView d (Held doc) pat"
  shows "\<exists>pv. store_reads pat = Some pv
           \<and> (\<exists>l \<in> set (doctor_patient_links d).
                 l_patient_id l = pv \<and> l_doctor_id l = doc
                 \<and> l_patient_selected l \<and> l_doctor_selected l)"
proof (cases "store_reads pat")
  case None
  with assms show ?thesis by (simp add: canDoctorView_def)
next
  case (Some pv)
  let ?f = "filter (\<lambda>l. l_doctor_id l = doc \<and> l_patient_id l = pv) (doctor_patient_links d)"
  from assms Some obtain l where l: "?f = [l]"
    and sel: "l_patient_selected l \<and> l_doctor_selected l"
    unfolding canDoctorView_def
    by (cases ?f rule: maybeSingle.cases) (auto split: sum.splits option.splits)
  from l have "l \<in> set ?f" by simp
  with sel Some show ?thesis by auto
qed

lemma canDoctorView_iff:
  assumes "distinct (map (\<lambda>l. (l_patient_id l, l_doctor_id l)) (doctor_patient_links d))"
    and "store_reads pat = Some pv"
  shows "canDoctorView d (Held doc) pat \<longleftrightarrow>
     (\<exists>l \<in> set (doctor_patient_links d).
        l_patient_id l = pv \<and> l_doctor_id l = doc \<and> l_patient_selected l \<and> l_doctor_selected l)"
proof
  assume "canDoctorView d (Held doc) pat"
  from canDoctorView_imp[OF this] assms(2)
  show "\<exists>l \<in> set (doctor_patient_links d).
        l_patient_id l = pv \<and> l_doctor_id l = doc \<and> l_patient_selected l \<and> l_doctor_selected l"
    by simp
next
  assume "\<exists>l \<in> set (doctor_patient_links d).
        l_patient_id l = pv \<and> l_doctor_id l = doc \<and> l_patient_selected l \<and> l_doctor_selected l"
  then obtain l where l: "l \<in> set (doctor_patient_links d)"
      "(l_patient_id l, l_doctor_id l) = (pv, doc)" "l_patient_selected l" "l_doctor_selected l"
    by auto
  have eq: "(\<lambda>l. l_doctor_id l = doc \<and> l_patient_id l = pv)
            = (\<lambda>l. (l_patient_id l, l_doctor_id l) = (pv, doc))" by auto
  from filter_key_single[OF assms(1) l(1,2)] l(3,4) assms(2) show "canDoctorView d (Held doc) pat"
    by (simp add: canDoctorView_def eq)
qed

lemma cross_check_denied_403:
  "cross_account_check d user t = Some r \<Longrightarrow> status r = 403 \<and> id_text t \<noteq> u_id user"
  by (auto simp: cross_account_check_def split: if_splits)

lemma cross_check_denied_reply:
  "cross_account_check d user t = Some r
   \<Longrightarrow> r = Resp 403 (Error ''Forbidden'') \<or> r = Resp 403 (Error ''No permission'')"
  by (auto simp: cross_account_check_def split: if_splits)

lemma cross_check_permits:
  assumes "cross_account_check d user t = None"
  shows "may_read d user t"
proof (cases "id_text t = u_id user")
  case True
  then show ?thesis by (simp add: may_read_def)
next
  case False
  with assms obtain p where p: "getProfile d (u_id user) = Some p" "p_role p = Some ''doctor''"
    and can: "canDoctorView d (Held (u_id user)) t"
    by (auto simp: cross_account_check_def split: if_splits option.splits)
  from p(1) have "filter (\<lambda>p. p_id p = u_id user) (profiles d) = [p]"
    unfolding getProfile_def
    by (cases "filter (\<lambda>p. p_id p = u_id user) (profiles d)" rule: single.cases)
       (auto split: sum.splits)
  then have "p \<in> set (filter (\<lambda>p. p_id p = u_id user) (profiles d))" by simp
  then have "p \<in> set (profiles d) \<and> p_id p = u_id user" by simp
  with p(2) have doc: "\<exists>p \<in> set (profiles d). p_id p = u_id user \<and> p_role p = Some ''doctor''"
    by blast
  from canDoctorView_imp[OF can] obtain pv where "store_reads t = Some pv"
    and "\<exists>l \<in> set (doctor_patient_links d).
            l_patient_id l = pv \<and> l_doctor_id l = u_id user
            \<and> l_patient_selected l \<and> l_doctor_selected l"
    by blast
  with doc show ?thesis by (simp add: may_read_def)
qed

lemma permits_cross_check:
  assumes "db_ok d" and "may_read d user t"
  shows "cross_account_check d user t = None"
proof (cases "id_text t = u_id user")
  case True
  then show ?thesis by (simp add: cross_account_check_def)
next
  case False
  from assms(1) have dp: "distinct (map p_id (profiles d))"
    and dl: "distinct (map (\<lambda>l. (l_patient_id l, l_doctor_id l)) (doctor_patient_links d))"
    by (simp_all add: db_ok_def)
  from False assms(2) obtain p where p: "p \<in> set (profiles d)" "p_id p = u_id user"
      "p_role p = Some ''doctor''"
    unfolding may_read_def by blast
  from False assms(2) obtain pv where pv: "store_reads t = Some pv"
    and l: "\<exists>l \<in> set (doctor_patient_links d).
               l_patient_id l = pv \<and> l_doctor_id l = u_id user
               \<and> l_patient_selected l \<and> l_doctor_selected l"
    unfolding may_read_def by (cases "store_reads t") auto
  from p(1,2) have "getProfile d (u_id user) = Some p"
    by (simp add: getProfile_Some_iff[OF dp])
  moreover from l have "canDoctorView d (Held (u_id user)) t"
    by (simp add: canDoctorView_iff[OF dl pv])
  ultimately show ?thesis using p(3) by (simp add: cross_account_check_def)
qed

lemma cross_check_iff:
  assumes "db_ok d"
  shows "cross_account_check d user t = None \<longleftrightarrow> may_read d user t"
  using cross_check_permits[of d user t] permits_cross_check[OF assms, of user t] by blast

text \<open>The store reads its own print of a uuid back as the same value.\<close>

lemma may_read_spec_permits:
  assumes "uuid_in t = Some tv" and "t = tv \<or> tv \<noteq> u_id user \<and> uuid_in (u_id user) = Some (u_id user)"
  shows "may_read d user (Given t) \<longleftrightarrow> spec_permits d (u_id user) tv"
proof -
  from assms have "t = u_id user \<longleftrightarrow> tv = u_id user" by auto
  with assms(1) show ?thesis by (simp add: may_read_def spec_permits_def)
qed

section \<open>Authorization of reads\<close>

lemma forUserId_given: "truthy_str (r_qp_user_id rq) = Some t \<Longrightarrow> forUserId_of user rq = Given t"
  by (simp add: forUserId_of_def)


lemma fetch_403_iff:
  assumes "db_ok d"
  shows "status (handle_habits_fetch e user rq d) = 403
         \<longleftrightarrow> \<not> may_read d user (forUserId_of user rq)"
proof (cases "cross_account_check d user (forUserId_of user rq)")
  case None
  then have "status (handle_habits_fetch e user rq d) \<noteq> 403"
    by (simp add: handle_habits_fetch_def Let_def split: option.splits)
  with cross_check_permits[OF None] show ?thesis by simp
next
  case (Some r)
  then have "status (handle_habits_fetch e user rq d) = 403"
    using cross_check_denied_403[OF Some] by (simp add: handle_habits_fetch_def Let_def)
  moreover have "\<not> may_read d user (forUserId_of user rq)"
    using cross_check_iff[OF assms, of user "forUserId_of user rq"] Some by simp
  ultimately show ?thesis by simp
qed

lemma vitals_fetch_403_iff:
  assumes "db_ok d"
  shows "status (handle_vitals_fetch e user rq d) = 403
         \<longleftrightarrow> \<not> may_read d user (forUserId_of user rq)"
proof (cases "cross_account_check d user (forUserId_of user rq)")
  case None
  then have "status (handle_vitals_fetch e user rq d) \<noteq> 403"
    by (simp add: handle_vitals_fetch_def Let_def split: option.splits)
  with cross_check_permits[OF None] show ?thesis by simp
next
  case (Some r)
  then have "status (handle_vitals_fetch e user rq d) = 403"
    using cross_check_denied_403[OF Some] by (simp add: handle_vitals_fetch_def Let_def)
  moreover have "\<not> may_read d user (forUserId_of user rq)"
    using cross_check_iff[OF assms, of user "forUserId_of user rq"] Some by simp
  ultimately show ?thesis by simp
qed

lemma profile_get_permitted:
  assumes "distinct (map p_id (profiles d))"
    and "truthy_str (r_qp_user_id rq) = Some t"
    and "cross_account_check d user (Given t) = None"
  shows "status (handle_profile_get user rq d) = (if target_has_profile d t then 200 else 404)"
proof (cases "uuid_in t")
  case None
  with assms(2,3) show ?thesis by (simp add: handle_profile_get_def target_has_profile_def)
next
  case (Some tv)
  let ?f = "filter (\<lambda>p. p_id p = tv) (profiles d)"
  from filter_key_cases[OF assms(1), of tv] consider "?f = []" | p where "?f = [p]" by blast
  then show ?thesis
  proof cases
    case 1
    then have "\<not> has_profile d tv" by (auto simp: has_profile_def filter_empty_conv)
    with 1 Some assms(2,3) show ?thesis
      by (simp add: handle_profile_get_def target_has_profile_def)
  next
    case 2
    then have "p \<in> set ?f" by simp
    then have "has_profile d tv" by (auto simp: has_profile_def)
    with 2 Some assms(2,3) show ?thesis
      by (simp add: handle_profile_get_def target_has_profile_def)
  qed
qed

lemma read_denied:
  assumes "cross_account_check d user (Given t) = Some r"
    and "truthy_str (r_qp_user_id rq) = Some t"
  shows "handle_profile_get user rq d = r"
    and "handle_habits_fetch e user rq d = r"
    and "handle_vitals_fetch e user rq d = r"
  using assms
  by (simp_all add: handle_profile_get_def handle_habits_fetch_def handle_vitals_fetch_def
      forUserId_of_def Let_def)

lemma profile_get_403_iff:
  assumes "db_ok d" and "truthy_str (r_qp_user_id rq) = Some t"
  shows "status (handle_profile_get user rq d) = 403 \<longleftrightarrow> \<not> may_read d user (Given t)"
proof (cases "cross_account_check d user (Given t)")
  case None
  from assms(1) have "distinct (map p_id (profiles d))" by (simp add: db_ok_def)
  from profile_get_permitted[OF this assms(2) None]
  have "status (handle_profile_get user rq d) \<noteq> 403" by simp
  with cross_check_permits[OF None] show ?thesis by simp
next
  case (Some r)
  with read_denied(1)[OF Some assms(2)] cross_check_denied_403[OF Some]
  have "status (handle_profile_get user rq d) = 403" by simp
  moreover have "\<not> may_read d user (Given t)"
    using cross_check_iff[OF assms(1), of user "Given t"] Some by simp
  ultimately show ?thesis by simp
qed

lemma handler_profile_get:
  "r_method rq \<noteq> ''OPTIONS'' \<Longrightarrow> r_auth rq = Some user \<Longrightarrow> r_action rq = Some ''profile.get''
   \<Longrightarrow> handler e rq d = (handle_profile_get user rq d, d)"
  by (simp add: handler_def)

lemma handler_habits_fetch:
  "r_method rq \<noteq> ''OPTIONS'' \<Longrightarrow> r_auth rq = Some user \<Longrightarrow> r_action rq = Some ''habits.fetch''
   \<Longrightarrow> handler e rq d = (handle_habits_fetch e user rq d, d)"
  by (simp add: handler_def)

lemma handler_vitals_fetch:
  "r_method rq \<noteq> ''OPTIONS'' \<Longrightarrow> r_auth rq = Some user \<Longrightarrow> r_action rq = Some ''vitals.fetch''
   \<Longrightarrow> handler e rq d = (handle_vitals_fetch e user rq d, d)"
  by (simp add: handler_def)

lemma read_403_iff:
  assumes "db_ok d"
    and "r_method rq \<noteq> ''OPTIONS''"
    and "r_auth rq = Some user"
    and "r_action rq \<in> {Some ''profile.get'', Some ''habits.fetch'', Some ''vitals.fetch''}"
    and "truthy_str (r_qp_user_id rq) = Some t"
  shows "status (fst (handler e rq d)) = 403 \<longleftrightarrow> \<not> may_read d user (Given t)"
proof -
  consider (pg) "r_action rq = Some ''profile.get''" | (hf) "r_action rq = Some ''habits.fetch''"
    | (vf) "r_action rq = Some ''vitals.fetch''"
    using assms(4) by auto
  then show ?thesis
  proof cases
    case pg
    then show ?thesis
      using handler_profile_get[OF assms(2,3) pg] profile_get_403_iff[OF assms(1,5)] by simp
  next
    case hf
    then show ?thesis
      using handler_habits_fetch[OF assms(2,3) hf] fetch_403_iff[OF assms(1), of e user rq]
        forUserId_given[OF assms(5), of user]
      by simp
  next
    case vf
    then show ?thesis
      using handler_vitals_fetch[OF assms(2,3) vf] vitals_fetch_403_iff[OF assms(1), of e user rq]
        forUserId_given[OF assms(5), of user]
      by simp
  qed
qed

lemma read_denied_reply:
  assumes "r_method rq \<noteq> ''OPTIONS''"
    and "r_auth rq = Some user"
    and "r_action rq \<in> {Some ''profile.get'', Some ''habits.fetch'', Some ''vitals.fetch''}"
    and "truthy_str (r_qp_user_id rq) = Some t"
    and "\<not> may_read d user (Given t)"
  shows "fst (handler e rq d) = Resp 403 (Error ''Forbidden'')
         \<or> fst (handler e rq d) = Resp 403 (Error ''No permission'')"
proof -
  from assms(5) cross_check_permits[of d user "Given t"] obtain r
    where r: "cross_account_check d user (Given t) = Some r"
    by (cases "cross_account_check d user (Given t)") auto
  note rd = read_denied[OF r assms(4)]
  consider (pg) "r_action rq = Some ''profile.get''" | (hf) "r_action rq = Some ''habits.fetch''"
    | (vf) "r_action rq = Some ''vitals.fetch''"
    using assms(3) by auto
  then have "fst (handler e rq d) = r"
  proof cases
    case pg
    then show ?thesis using handler_profile_get[OF assms(1,2) pg, of e d] rd(1) by simp
  next
    case hf
    then show ?thesis using handler_habits_fetch[OF assms(1,2) hf, of e d] rd(2)[of e] by simp
  next
    case vf
    then show ?thesis using handler_vitals_fetch[OF assms(1,2) vf, of e d] rd(3)[of e] by simp
  qed
  with cross_check_denied_reply[OF r] show ?thesis by simp
qed

lemmas uuid_defs = uuid_in_def uuid_dashes_def uuid_print_def is_hex_def lower_hex_def

lemmas ex_ids = ex_p1_def ex_p1_upper_def ex_d1_def ex_d2_def ex_nobody_def

text \<open>
  Claim C1, as the specification states it, fails where the caller names its own account in
  another spelling: the patient of the example asks for the habits of its own uuid written in
  upper case. The store reads that text as the caller's own account, so the target equals the
  caller; the handler compares the strings, applies the role test and answers 403.
\<close>

theorem self_access_other_spelling_counterexample:
  "uuid_in ex_p1_upper = Some (u_id ex_patient)
   \<and> fst (handler ex_env (ex_get ''habits.fetch'' ex_patient (Some ex_p1_upper) None) ex_db)
       = Resp 403 (Error ''Forbidden'')"
  by (simp add: uuid_defs ex_ids ex_patient_def ex_get_def ex_db_def handler_def
      handle_habits_fetch_def forUserId_of_def cross_account_check_def getProfile_def Let_def)

text \<open>
  Claim C1, amended. For an authenticated \<^verbatim>\<open>profile.get\<close>, \<^verbatim>\<open>habits.fetch\<close> or
  \<^verbatim>\<open>vitals.fetch\<close> request that gives a \<^verbatim>\<open>user_id\<close>, under the keys of the schema:
  the answer is not 403 exactly when the \<^verbatim>\<open>user_id\<close> is the caller's id character for
  character, or the caller's profile has role doctor and a link row of (the account the store
  reads the \<^verbatim>\<open>user_id\<close> as, caller) has both flags true. A \<^verbatim>\<open>user_id\<close> equal to the
  caller's id is never answered 403, whatever the caller's role and links are. A denied
  request gets one of the two 403 errors and nothing else. When the account named is not the
  caller's (the caller's id being a uuid as the store prints it), or when the \<^verbatim>\<open>user_id\<close>
  is written as the store prints it, this is the rule of the specification on accounts: the
  target is the caller, or the caller is a doctor with a link of (target, caller) with both
  flags true. A \<^verbatim>\<open>user_id\<close> other than the caller's id that the store does not read as a
  uuid is denied.
\<close>

theorem access_iff_mutual_consent:
  assumes "db_ok d"
    and "r_method rq \<noteq> ''OPTIONS''"
    and "r_auth rq = Some user"
    and "r_action rq \<in> {Some ''profile.get'', Some ''habits.fetch'', Some ''vitals.fetch''}"
    and "truthy_str (r_qp_user_id rq) = Some t"
  shows "(status (fst (handler e rq d)) \<noteq> 403 \<longleftrightarrow> may_read d user (Given t))
         \<and> (t = u_id user \<longrightarrow> status (fst (handler e rq d)) \<noteq> 403)
         \<and> (\<not> may_read d user (Given t) \<longrightarrow>
               fst (handler e rq d) = Resp 403 (Error ''Forbidden'')
             \<or> fst (handler e rq d) = Resp 403 (Error ''No permission''))
         \<and> (uuid_in t = Some tv
              \<and> (t = tv \<or> tv \<noteq> u_id user \<and> uuid_in (u_id user) = Some (u_id user))
            \<longrightarrow> (status (fst (handler e rq d)) \<noteq> 403 \<longleftrightarrow> spec_permits d (u_id user) tv))
         \<and> (uuid_in t = None \<and> t \<noteq> u_id user \<longrightarrow> status (fst (handler e rq d)) = 403)"
proof -
  note iff = read_403_iff[OF assms, of e]
  have own: "t = u_id user \<longrightarrow> may_read d user (Given t)" by (simp add: may_read_def)
  have byvalue: "may_read d user (Given t) \<longleftrightarrow> spec_permits d (u_id user) tv"
    if "uuid_in t = Some tv
        \<and> (t = tv \<or> tv \<noteq> u_id user \<and> uuid_in (u_id user) = Some (u_id user))"
    using that may_read_spec_permits[of t tv user d] by blast
  have unread: "uuid_in t = None \<and> t \<noteq> u_id user \<longrightarrow> \<not> may_read d user (Given t)"
    by (simp add: may_read_def)
  from iff own byvalue unread read_denied_reply[OF assms(2-5), of d e] show ?thesis by blast
qed

theorem access_iff_mutual_consent_witness:
  "db_ok ex_db
   \<and> uuid_in ex_p1_upper = Some ex_p1
   \<and> ex_p1 \<noteq> u_id ex_doctor
   \<and> uuid_in (u_id ex_doctor) = Some (u_id ex_doctor)
   \<and> spec_permits ex_db (u_id ex_doctor) ex_p1
   \<and> status (fst (handler ex_env (ex_get ''habits.fetch'' ex_doctor (Some ex_p1_upper) None)
                    ex_db)) \<noteq> 403"
proof -
  let ?rq = "ex_get ''habits.fetch'' ex_doctor (Some ex_p1_upper) None"
  have h1: "db_ok ex_db" by (simp add: db_ok_def ex_db_def ex_ids)
  have h2: "r_method ?rq \<noteq> ''OPTIONS''" by (simp add: ex_get_def)
  have h3: "r_auth ?rq = Some ex_doctor" by (simp add: ex_get_def)
  have h4: "r_action ?rq \<in> {Some ''profile.get'', Some ''habits.fetch'', Some ''vitals.fetch''}"
    by (simp add: ex_get_def)
  have h5: "truthy_str (r_qp_user_id ?rq) = Some ex_p1_upper" by (simp add: ex_get_def ex_ids)
  have u1: "uuid_in ex_p1_upper = Some ex_p1" by (simp add: uuid_defs ex_ids)
  have u2: "ex_p1 \<noteq> u_id ex_doctor" by (simp add: ex_doctor_def ex_ids)
  have u3: "uuid_in (u_id ex_doctor) = Some (u_id ex_doctor)"
    by (simp add: uuid_defs ex_doctor_def ex_ids)
  have sp: "spec_permits ex_db (u_id ex_doctor) ex_p1"
    by (simp add: spec_permits_def ex_db_def ex_doctor_def ex_ids)
  from access_iff_mutual_consent[OF h1 h2 h3 h4 h5, of ex_env ex_p1] u1 u2 u3 sp
  have "status (fst (handler ex_env ?rq ex_db)) \<noteq> 403" by blast
  with h1 u1 u2 u3 sp show ?thesis by blast
qed

lemma fetch_never_404:
  "status (handle_habits_fetch e user rq d) \<noteq> 404"
  "status (handle_vitals_fetch e user rq d) \<noteq> 404"
proof -
  let ?t = "forUserId_of user rq"
  show "status (handle_habits_fetch e user rq d) \<noteq> 404"
  proof (cases "cross_account_check d user ?t")
    case None
    then show ?thesis by (simp add: handle_habits_fetch_def Let_def split: option.splits)
  next
    case (Some r)
    with cross_check_denied_403[OF Some] show ?thesis
      by (simp add: handle_habits_fetch_def Let_def)
  qed
  show "status (handle_vitals_fetch e user rq d) \<noteq> 404"
  proof (cases "cross_account_check d user ?t")
    case None
    then show ?thesis by (simp add: handle_vitals_fetch_def Let_def split: option.splits)
  next
    case (Some r)
    with cross_check_denied_403[OF Some] show ?thesis
      by (simp add: handle_vitals_fetch_def Let_def)
  qed
qed

text \<open>
  Claim C4. For an authenticated request that gives a \<^verbatim>\<open>user_id\<close>, under the keys of the
  schema, with the authorization check as the handler makes it (the \<^verbatim>\<open>user_id\<close> is the
  caller's id, or the caller is a doctor with a link of both flags to the account the store
  reads the \<^verbatim>\<open>user_id\<close> as): a request that fails the check is answered 403 by
  \<^verbatim>\<open>profile.get\<close>, \<^verbatim>\<open>habits.fetch\<close> and \<^verbatim>\<open>vitals.fetch\<close>, with one of the two
  authorization errors, whether or not the account named has a profile; \<^verbatim>\<open>profile.get\<close>
  answers 404 exactly when the check has passed and the account named has no profile, and 200
  when the check has passed and it has one; the two fetches never answer 404.
\<close>

theorem denial_is_forbidden_not_missing:
  assumes "db_ok d"
    and "r_method rq \<noteq> ''OPTIONS''"
    and "r_auth rq = Some user"
    and "r_action rq \<in> {Some ''profile.get'', Some ''habits.fetch'', Some ''vitals.fetch''}"
    and "truthy_str (r_qp_user_id rq) = Some t"
  shows "(\<not> may_read d user (Given t) \<longrightarrow>
            status (fst (handler e rq d)) = 403
          \<and> (fst (handler e rq d) = Resp 403 (Error ''Forbidden'')
             \<or> fst (handler e rq d) = Resp 403 (Error ''No permission'')))
       \<and> (r_action rq = Some ''profile.get'' \<longrightarrow>
            (status (fst (handler e rq d)) = 404
               \<longleftrightarrow> may_read d user (Given t) \<and> \<not> target_has_profile d t)
          \<and> (status (fst (handler e rq d)) = 200
               \<longleftrightarrow> may_read d user (Given t) \<and> target_has_profile d t))
       \<and> (r_action rq \<noteq> Some ''profile.get'' \<longrightarrow> status (fst (handler e rq d)) \<noteq> 404)"
proof (intro conjI impI)
  assume np: "\<not> may_read d user (Given t)"
  with read_403_iff[OF assms, of e] show "status (fst (handler e rq d)) = 403" by simp
  from read_denied_reply[OF assms(2-5) np, of e]
  show "fst (handler e rq d) = Resp 403 (Error ''Forbidden'')
        \<or> fst (handler e rq d) = Resp 403 (Error ''No permission'')" .
next
  assume a: "r_action rq = Some ''profile.get''"
  note h = handler_profile_get[OF assms(2,3) a, of e d]
  note iff = read_403_iff[OF assms, of e]
  from assms(1) have dp: "distinct (map p_id (profiles d))" by (simp add: db_ok_def)
  have st: "status (fst (handler e rq d)) = (if target_has_profile d t then 200 else 404)"
    if "may_read d user (Given t)"
    using profile_get_permitted[OF dp assms(5) permits_cross_check[OF assms(1) that]] h by simp
  show "status (fst (handler e rq d)) = 404
        \<longleftrightarrow> may_read d user (Given t) \<and> \<not> target_has_profile d t"
    using iff st by (cases "may_read d user (Given t)") auto
  show "status (fst (handler e rq d)) = 200
        \<longleftrightarrow> may_read d user (Given t) \<and> target_has_profile d t"
    using iff st by (cases "may_read d user (Given t)") auto
next
  assume "r_action rq \<noteq> Some ''profile.get''"
  with assms(4) have a: "r_action rq = Some ''habits.fetch'' \<or> r_action rq = Some ''vitals.fetch''"
    by auto
  show "status (fst (handler e rq d)) \<noteq> 404"
    using a handler_habits_fetch[OF assms(2,3), of e d] handler_vitals_fetch[OF assms(2,3), of e d]
      fetch_never_404[of e user rq d]
    by auto
qed

theorem denial_is_forbidden_not_missing_witness:
  "db_ok ex_db
   \<and> \<not> may_read ex_db ex_doctor (Given ex_nobody)
   \<and> \<not> target_has_profile ex_db ex_nobody
   \<and> \<not> may_read ex_db ex_doctor (Given ex_d2)
   \<and> target_has_profile ex_db ex_d2
   \<and> fst (handler ex_env (ex_get ''profile.get'' ex_doctor (Some ex_nobody) None) ex_db)
       = Resp 403 (Error ''No permission'')
   \<and> fst (handler ex_env (ex_get ''profile.get'' ex_doctor (Some ex_d2) None) ex_db)
       = Resp 403 (Error ''No permission'')
   \<and> status (fst (handler ex_env (ex_get ''profile.get'' ex_nobody_user (Some ex_nobody) None)
                    ex_db)) = 404"
proof -
  let ?rq = "ex_get ''profile.get'' ex_doctor (Some ex_nobody) None"
  let ?rq2 = "ex_get ''profile.get'' ex_doctor (Some ex_d2) None"
  let ?rq3 = "ex_get ''profile.get'' ex_nobody_user (Some ex_nobody) None"
  have h1: "db_ok ex_db" by (simp add: db_ok_def ex_db_def ex_ids)
  have h2: "r_method ?rq \<noteq> ''OPTIONS''" "r_method ?rq2 \<noteq> ''OPTIONS''" "r_method ?rq3 \<noteq> ''OPTIONS''"
    by (simp_all add: ex_get_def)
  have h3: "r_auth ?rq = Some ex_doctor" "r_auth ?rq2 = Some ex_doctor"
    "r_auth ?rq3 = Some ex_nobody_user"
    by (simp_all add: ex_get_def)
  have h4: "r_action ?rq \<in> {Some ''profile.get'', Some ''habits.fetch'', Some ''vitals.fetch''}"
    "r_action ?rq2 \<in> {Some ''profile.get'', Some ''habits.fetch'', Some ''vitals.fetch''}"
    "r_action ?rq3 \<in> {Some ''profile.get'', Some ''habits.fetch'', Some ''vitals.fetch''}"
    by (simp_all add: ex_get_def)
  have h5: "truthy_str (r_qp_user_id ?rq) = Some ex_nobody"
    "truthy_str (r_qp_user_id ?rq2) = Some ex_d2"
    "truthy_str (r_qp_user_id ?rq3) = Some ex_nobody"
    by (simp_all add: ex_get_def ex_ids)
  have a: "r_action ?rq3 = Some ''profile.get''" by (simp add: ex_get_def)
  have m1: "\<not> may_read ex_db ex_doctor (Given ex_nobody)"
    by (simp add: may_read_def ex_db_def ex_doctor_def ex_ids uuid_defs)
  have m2: "\<not> may_read ex_db ex_doctor (Given ex_d2)"
    by (simp add: may_read_def ex_db_def ex_doctor_def ex_ids uuid_defs)
  have m3: "may_read ex_db ex_nobody_user (Given ex_nobody)"
    by (simp add: may_read_def ex_nobody_user_def)
  have p1: "\<not> target_has_profile ex_db ex_nobody"
    by (simp add: target_has_profile_def has_profile_def ex_db_def ex_ids uuid_defs)
  have p2: "target_has_profile ex_db ex_d2"
    by (simp add: target_has_profile_def has_profile_def ex_db_def ex_ids uuid_defs)
  have r1: "fst (handler ex_env ?rq ex_db) \<noteq> Resp 403 (Error ''Forbidden'')"
    by (simp add: uuid_defs ex_ids ex_doctor_def ex_get_def ex_db_def handler_def
      handle_profile_get_def cross_account_check_def getProfile_def canDoctorView_def Let_def)
  have r2: "fst (handler ex_env ?rq2 ex_db) \<noteq> Resp 403 (Error ''Forbidden'')"
    by (simp add: uuid_defs ex_ids ex_doctor_def ex_get_def ex_db_def handler_def
      handle_profile_get_def cross_account_check_def getProfile_def canDoctorView_def Let_def)
  from denial_is_forbidden_not_missing[OF h1 h2(1) h3(1) h4(1) h5(1), of ex_env] m1 r1
  have c1: "fst (handler ex_env ?rq ex_db) = Resp 403 (Error ''No permission'')" by blast
  from denial_is_forbidden_not_missing[OF h1 h2(2) h3(2) h4(2) h5(2), of ex_env] m2 r2
  have c2: "fst (handler ex_env ?rq2 ex_db) = Resp 403 (Error ''No permission'')" by blast
  from denial_is_forbidden_not_missing[OF h1 h2(3) h3(3) h4(3) h5(3), of ex_env] m3 p1 a
  have c3: "status (fst (handler ex_env ?rq3 ex_db)) = 404" by blast
  from h1 m1 m2 p1 p2 c1 c2 c3 show ?thesis by blast
qed

section \<open>Consent links only grow\<close>

lemma link_le_refl: "link_le l l"
  by (simp add: link_le_def)

lemma link_le_trans: "link_le a b \<Longrightarrow> link_le b c \<Longrightarrow> link_le a c"
  by (simp add: link_le_def)

lemma links_grow_refl: "links_grow ls ls"
  by (simp add: links_grow_def list_all2_refl link_le_refl)

lemma links_grow_nth:
  "links_grow ls ls' \<longleftrightarrow> length ls \<le> length ls' \<and> (\<forall>i < length ls. link_le (ls ! i) (ls' ! i))"
  by (auto simp: links_grow_def list_all2_conv_all_nth)

lemma links_grow_trans:
  assumes "links_grow a b" and "links_grow b c"
  shows "links_grow a c"
  using assms unfolding links_grow_nth
  by (meson link_le_trans order_trans less_le_trans)

lemma links_grow_append: "links_grow ls (ls @ xs)"
  by (simp add: links_grow_def list_all2_refl link_le_refl)

lemma links_grow_map:
  assumes "\<And>l. link_le l (f l)"
  shows "links_grow ls (map f ls)"
  by (simp add: links_grow_nth assms)

lemma links_grow_set_patient:
  "links_grow (doctor_patient_links d) (doctor_patient_links (set_patient_selected i d))"
  unfolding set_patient_selected_def
  by (simp add: links_grow_nth link_le_def)

lemma links_grow_set_doctor:
  "links_grow (doctor_patient_links d) (doctor_patient_links (set_doctor_selected i d))"
  unfolding set_doctor_selected_def
  by (simp add: links_grow_nth link_le_def)

lemma links_getOrCreateLink:
  assumes "getOrCreateLink e p dc d = Inr (l, d')"
  shows "links_grow (doctor_patient_links d) (doctor_patient_links d')"
  using assms
  by (auto simp: getOrCreateLink_def insert_link_def Let_def links_grow_refl links_grow_append
      split: option.splits sum.splits if_splits)

lemma links_link_select:
  "links_grow (doctor_patient_links d) (doctor_patient_links (snd (handle_link_select e user b d)))"
proof -
  have pat: "links_grow (doctor_patient_links d)
               (doctor_patient_links (set_patient_selected i d'))"
    if "getOrCreateLink e p dc d = Inr (l, d')" for p dc l d' i
    using links_grow_trans[OF links_getOrCreateLink[OF that] links_grow_set_patient] .
  have doc: "links_grow (doctor_patient_links d)
               (doctor_patient_links (set_doctor_selected i d'))"
    if "getOrCreateLink e p dc d = Inr (l, d')" for p dc l d' i
    using links_grow_trans[OF links_getOrCreateLink[OF that] links_grow_set_doctor] .
  show ?thesis
    unfolding handle_link_select_def
    by (auto simp: links_grow_refl pat doc split: option.splits sum.splits prod.splits)
qed

lemma links_upsert_profile:
  "upsert_profile i em nm rl d = Inr d' \<Longrightarrow> doctor_patient_links d' = doctor_patient_links d"
  by (auto simp: upsert_profile_def Let_def split: if_splits)

lemma links_upsert_patient:
  "upsert_patient row d = Inr d' \<Longrightarrow> doctor_patient_links d' = doctor_patient_links d"
  by (auto simp: upsert_patient_def split: if_splits)

lemma links_upsert_doctor:
  "upsert_doctor row d = Inr d' \<Longrightarrow> doctor_patient_links d' = doctor_patient_links d"
  by (auto simp: upsert_doctor_def split: if_splits)

lemma links_ensureProfile:
  "doctor_patient_links (snd (ensureProfile i em b d)) = doctor_patient_links d"
  unfolding ensureProfile_def
  by (auto split: sum.splits dest!: links_upsert_profile links_upsert_patient links_upsert_doctor)

lemma links_profile_upsert:
  "doctor_patient_links (snd (handle_profile_upsert user b d)) = doctor_patient_links d"
  using links_ensureProfile[of "u_id user" "u_email user" b d]
  by (cases "ensureProfile (u_id user) (u_email user) b d")
     (auto simp: handle_profile_upsert_def split: option.splits)

lemma links_habits_upsert:
  "doctor_patient_links (snd (handle_habits_upsert e user b d)) = doctor_patient_links d"
  unfolding handle_habits_upsert_def Let_def
  by (auto simp: update_habit_def insert_habit_def split: option.splits sum.splits if_splits)

lemma links_vitals_upsert:
  "doctor_patient_links (snd (handle_vitals_upsert e user b d)) = doctor_patient_links d"
  unfolding handle_vitals_upsert_def Let_def
  by (auto simp: update_vital_def insert_vital_def split: option.splits sum.splits if_splits)

lemma links_handler:
  "links_grow (doctor_patient_links d) (doctor_patient_links (snd (handler e rq d)))"
  unfolding handler_def Let_def
  by (simp add: links_grow_refl links_link_select links_profile_upsert links_habits_upsert
      links_vitals_upsert split: option.splits)

lemma links_run:
  "links_grow (doctor_patient_links d) (doctor_patient_links (run reqs d))"
proof (induction reqs arbitrary: d)
  case Nil
  show ?case by (simp add: links_grow_refl)
next
  case (Cons a reqs)
  obtain e rq where a: "a = (e, rq)" by (cases a)
  show ?case
    using links_grow_trans[OF links_handler[of d e rq] Cons.IH[of "snd (handler e rq d)"]]
    by (simp add: a)
qed

lemma mutual_link_le:
  assumes "link_le l l'" and "l_patient_selected l" and "l_doctor_selected l"
  shows "l' = l"
  using assms by (simp add: link_le_def)

text \<open>
  Claim C2. For every store and every run of requests: each link row is still there
  afterwards, at its place, with the same identifier and pair, and no flag of it has gone
  from true to false; a row with both flags true is unchanged by the run.
\<close>

theorem consent_flags_never_reset:
  "links_grow (doctor_patient_links d) (doctor_patient_links (run reqs d))
   \<and> (\<forall>i < length (doctor_patient_links d).
        l_patient_selected (doctor_patient_links d ! i)
        \<and> l_doctor_selected (doctor_patient_links d ! i)
        \<longrightarrow> doctor_patient_links (run reqs d) ! i = doctor_patient_links d ! i)"
proof -
  note g = links_run[of d reqs]
  moreover have "doctor_patient_links (run reqs d) ! i = doctor_patient_links d ! i"
    if "i < length (doctor_patient_links d)"
      "l_patient_selected (doctor_patient_links d ! i)"
      "l_doctor_selected (doctor_patient_links d ! i)" for i
    using g that mutual_link_le unfolding links_grow_nth by blast
  ultimately show ?thesis by blast
qed

theorem consent_flags_never_reset_witness:
  "0 < length (doctor_patient_links ex_db)
   \<and> l_patient_selected (doctor_patient_links ex_db ! 0)
   \<and> l_doctor_selected (doctor_patient_links ex_db ! 0)
   \<and> doctor_patient_links
        (run [(ex_env, ex_post ''link.select'' ex_patient (empty_body\<lparr>b_doctor_id := Val ex_d2\<rparr>)),
              (ex_env, ex_post ''link.select'' ex_doctor
                 (empty_body\<lparr>b_patient_email := Val ''p1@example.org''\<rparr>))] ex_db) ! 0
       = doctor_patient_links ex_db ! 0"
proof -
  let ?reqs = "[(ex_env, ex_post ''link.select'' ex_patient (empty_body\<lparr>b_doctor_id := Val ex_d2\<rparr>)),
                (ex_env, ex_post ''link.select'' ex_doctor
                   (empty_body\<lparr>b_patient_email := Val ''p1@example.org''\<rparr>))]"
  have h0: "0 < length (doctor_patient_links ex_db)" by (simp add: ex_db_def)
  have h1: "l_patient_selected (doctor_patient_links ex_db ! 0)" by (simp add: ex_db_def)
  have h2: "l_doctor_selected (doctor_patient_links ex_db ! 0)" by (simp add: ex_db_def)
  have "\<forall>i < length (doctor_patient_links ex_db).
          l_patient_selected (doctor_patient_links ex_db ! i)
          \<and> l_doctor_selected (doctor_patient_links ex_db ! i)
          \<longrightarrow> doctor_patient_links (run ?reqs ex_db) ! i = doctor_patient_links ex_db ! i"
    using consent_flags_never_reset[of ex_db ?reqs] by (rule conjunct2)
  from this[rule_format, of 0]
  have "doctor_patient_links (run ?reqs ex_db) ! 0 = doctor_patient_links ex_db ! 0"
    using h0 h1 h2 by simp
  with h0 h1 h2 show ?thesis by (intro conjI)
qed

section \<open>Selecting a doctor twice\<close>

lemma find_filter_single: "filter P xs = [x] \<Longrightarrow> find P xs = Some x"
  by (induction xs) (auto split: if_splits simp: filter_empty_conv)

lemma filter_hd_find: "find P xs = (case filter P xs of [] \<Rightarrow> None | x # _ \<Rightarrow> Some x)"
  by (induction xs) auto

lemma getOrCreateLink_reads:
  assumes "getOrCreateLink e pa da d = Inr (l, d')"
  obtains p dc where "store_reads pa = Some p" and "store_reads da = Some dc"
  using assms by (auto simp: getOrCreateLink_def split: option.splits)

lemma getOrCreateLink_row:
  assumes "getOrCreateLink e pa da d = Inr (l, d')"
    and rd: "store_reads pa = Some p" "store_reads da = Some dc"
  shows "filter (\<lambda>l. l_patient_id l = p \<and> l_doctor_id l = dc) (doctor_patient_links d') = [l]"
    and "l_doctor_selected l =
           (case find (\<lambda>l. l_patient_id l = p \<and> l_doctor_id l = dc) (doctor_patient_links d) of
              None \<Rightarrow> False
            | Some l0 \<Rightarrow> l_doctor_selected l0)"
proof -
  let ?P = "\<lambda>l. l_patient_id l = p \<and> l_doctor_id l = dc"
  let ?f = "filter ?P (doctor_patient_links d)"
  have "filter ?P (doctor_patient_links d') = [l]
        \<and> l_doctor_selected l =
           (case find ?P (doctor_patient_links d) of None \<Rightarrow> False | Some l0 \<Rightarrow> l_doctor_selected l0)"
  proof (cases "data_of (maybeSingle ?f)")
    case (Some l0)
    then have f: "?f = [l0]" by (cases ?f rule: maybeSingle.cases) auto
    from Some assms(1) rd have eq: "l = l0" "d' = d" by (auto simp: getOrCreateLink_def)
    from f have "find ?P (doctor_patient_links d) = Some l0"
      by (rule find_filter_single)
    with f eq show ?thesis by simp
  next
    case None
    with assms(1) rd have ins: "insert_link l d = Inr d'"
      and l: "l = \<lparr>l_id = new_id e, l_patient_id = p, l_doctor_id = dc,
                   l_patient_selected = False, l_doctor_selected = False\<rparr>"
      by (auto simp: getOrCreateLink_def Let_def split: sum.splits)
    from ins have none: "\<forall>x \<in> set (doctor_patient_links d). \<not> ?P x"
      and d': "doctor_patient_links d' = doctor_patient_links d @ [l]"
      by (auto simp: insert_link_def l split: if_splits)
    from none have e: "?f = []" by (simp add: filter_empty_conv)
    from none have "find ?P (doctor_patient_links d) = None" by (simp add: find_None_iff)
    with e d' l show ?thesis by simp
  qed
  then show "filter ?P (doctor_patient_links d') = [l]"
    and "l_doctor_selected l =
           (case find ?P (doctor_patient_links d) of None \<Rightarrow> False | Some l0 \<Rightarrow> l_doctor_selected l0)"
    by simp_all
qed


lemma set_patient_selected_idem:
  "set_patient_selected i (set_patient_selected i d) = set_patient_selected i d"
  by (simp add: set_patient_selected_def comp_def)

lemma filter_set_patient_selected:
  "filter (\<lambda>l. l_patient_id l = p \<and> l_doctor_id l = dc)
     (doctor_patient_links (set_patient_selected i d))
   = map (\<lambda>l. if l_id l = i then l\<lparr>l_patient_selected := True\<rparr> else l)
       (filter (\<lambda>l. l_patient_id l = p \<and> l_doctor_id l = dc) (doctor_patient_links d))"
  by (simp add: set_patient_selected_def filter_map comp_def if_distrib[of l_patient_id]
      if_distrib[of l_doctor_id] cong: if_cong)

lemma getOrCreateLink_found:
  assumes "filter (\<lambda>l. l_patient_id l = p \<and> l_doctor_id l = dc) (doctor_patient_links d) = [l]"
    and "store_reads pa = Some p" and "store_reads da = Some dc"
  shows "getOrCreateLink e pa da d = Inr (l, d)"
  using assms by (simp add: getOrCreateLink_def)

lemma link_select_patient:
  assumes "getProfile d (u_id user) = Some pr" and "p_role pr = Some ''patient''"
    and "truthy_text (b_doctor_id b) = Some dc"
  shows "handle_link_select e user b d =
           (case getOrCreateLink e (Held (u_id user)) (Given dc) d of
              Inl err \<Rightarrow> (Resp 500 (ServerError err), d)
            | Inr (link, d') \<Rightarrow> (Resp 200 Ok, set_patient_selected (l_id link) d'))"
  using assms by (simp add: handle_link_select_def)

lemma profiles_set_patient_selected [simp]:
  "profiles (set_patient_selected i d) = profiles d"
  by (simp add: set_patient_selected_def)

lemma profiles_getOrCreateLink:
  "getOrCreateLink e p dc d = Inr (l, d') \<Longrightarrow> profiles d' = profiles d"
  by (auto simp: getOrCreateLink_def insert_link_def Let_def split: option.splits sum.splits if_splits)

lemma getProfile_cong: "profiles d' = profiles d \<Longrightarrow> getProfile d' u = getProfile d u"
  by (simp add: getProfile_def)

lemma link_select_patient_twice:
  assumes pr: "getProfile d (u_id user) = Some pr" "p_role pr = Some ''patient''"
    and dc: "truthy_text (b_doctor_id b) = Some dc"
    and ok: "status (fst (handle_link_select ea user b d)) = 200"
  obtains dv where "uuid_in dc = Some dv"
    and "status (fst (handle_link_select eb user b (snd (handle_link_select ea user b d)))) = 200"
    and "snd (handle_link_select eb user b (snd (handle_link_select ea user b d)))
         = snd (handle_link_select ea user b d)"
    and "map (\<lambda>l. (l_patient_selected l, l_doctor_selected l))
           (filter (\<lambda>l. l_patient_id l = u_id user \<and> l_doctor_id l = dv)
              (doctor_patient_links (snd (handle_link_select ea user b d))))
         = [(True,
             case find (\<lambda>l. l_patient_id l = u_id user \<and> l_doctor_id l = dv)
                    (doctor_patient_links d) of
               None \<Rightarrow> False
             | Some l0 \<Rightarrow> l_doctor_selected l0)]"
proof -
  from ok obtain l d' where g: "getOrCreateLink ea (Held (u_id user)) (Given dc) d = Inr (l, d')"
    unfolding link_select_patient[OF pr dc]
    by (cases "getOrCreateLink ea (Held (u_id user)) (Given dc) d") auto
  from getOrCreateLink_reads[OF g] obtain dv where dv: "uuid_in dc = Some dv" by auto
  have rd: "store_reads (Held (u_id user)) = Some (u_id user)" "store_reads (Given dc) = Some dv"
    using dv by simp_all
  let ?P = "\<lambda>l. l_patient_id l = u_id user \<and> l_doctor_id l = dv"
  let ?d1 = "set_patient_selected (l_id l) d'"
  let ?l1 = "l\<lparr>l_patient_selected := True\<rparr>"
  have first: "handle_link_select ea user b d = (Resp 200 Ok, ?d1)"
    by (simp add: link_select_patient[OF pr dc] g)
  have row: "filter ?P (doctor_patient_links ?d1) = [?l1]"
    by (simp add: filter_set_patient_selected getOrCreateLink_row(1)[OF g rd])
  have "profiles ?d1 = profiles d"
    by (simp add: profiles_getOrCreateLink[OF g])
  from getProfile_cong[OF this, of "u_id user"] have pr1: "getProfile ?d1 (u_id user) = Some pr"
    using pr(1) by simp
  have second: "handle_link_select eb user b ?d1 = (Resp 200 Ok, ?d1)"
    by (simp add: link_select_patient[OF pr1 pr(2) dc] getOrCreateLink_found[OF row rd]
        set_patient_selected_idem)
  have 1: "status (fst (handle_link_select eb user b (snd (handle_link_select ea user b d)))) = 200"
    by (simp add: first second)
  have 2: "snd (handle_link_select eb user b (snd (handle_link_select ea user b d)))
         = snd (handle_link_select ea user b d)"
    by (simp add: first second)
  have 3: "map (\<lambda>l. (l_patient_selected l, l_doctor_selected l))
           (filter ?P (doctor_patient_links (snd (handle_link_select ea user b d))))
         = [(True,
             case find ?P (doctor_patient_links d) of
               None \<Rightarrow> False
             | Some l0 \<Rightarrow> l_doctor_selected l0)]"
    by (simp add: first row getOrCreateLink_row(2)[OF g rd])
  from that[OF dv 1 2 3] show thesis .
qed

lemma handler_link_select:
  "r_method rq = ''POST'' \<Longrightarrow> r_auth rq = Some user \<Longrightarrow> r_action rq = Some ''link.select''
   \<Longrightarrow> handler e rq d = handle_link_select e user (r_body rq) d"
  by (simp add: handler_def)

text \<open>
  Claim C3. A patient whose \<^verbatim>\<open>link.select\<close> for a doctor has succeeded repeats the
  request: the second call succeeds too and leaves the store as the first call left it;
  the store then holds exactly one link row of the pair (patient, the doctor account that the
  store reads the \<^verbatim>\<open>doctor_id\<close> as), with \<^verbatim>\<open>patient_selected\<close> true and
  \<^verbatim>\<open>doctor_selected\<close> as it was before either call (false when the first call created
  the row).
\<close>

theorem link_select_idempotent:
  assumes "r_method rq = ''POST''" and "r_auth rq = Some user"
    and "r_action rq = Some ''link.select''"
    and "getProfile d (u_id user) = Some pr" and "p_role pr = Some ''patient''"
    and "truthy_text (b_doctor_id (r_body rq)) = Some dc"
    and "status (fst (handler ea rq d)) = 200"
  shows "status (fst (handler eb rq (snd (handler ea rq d)))) = 200
       \<and> snd (handler eb rq (snd (handler ea rq d))) = snd (handler ea rq d)
       \<and> (\<exists>dv. uuid_in dc = Some dv
            \<and> map (\<lambda>l. (l_patient_selected l, l_doctor_selected l))
                (filter (\<lambda>l. l_patient_id l = u_id user \<and> l_doctor_id l = dv)
                   (doctor_patient_links (snd (handler eb rq (snd (handler ea rq d))))))
              = [(True,
                  case find (\<lambda>l. l_patient_id l = u_id user \<and> l_doctor_id l = dv)
                         (doctor_patient_links d) of
                    None \<Rightarrow> False
                  | Some l0 \<Rightarrow> l_doctor_selected l0)])"
proof -
  note h = handler_link_select[OF assms(1,2,3)]
  from assms(7) have ok: "status (fst (handle_link_select ea user (r_body rq) d)) = 200"
    by (simp add: h)
  have h1: "handler ea rq d = handle_link_select ea user (r_body rq) d" by (rule h)
  have h2: "handler eb rq (snd (handle_link_select ea user (r_body rq) d))
            = handle_link_select eb user (r_body rq) (snd (handle_link_select ea user (r_body rq) d))"
    by (rule h)
  from link_select_patient_twice[OF assms(4,5,6) ok, where eb=eb] obtain dv
    where "uuid_in dc = Some dv"
      and "status (fst (handle_link_select eb user (r_body rq)
                          (snd (handle_link_select ea user (r_body rq) d)))) = 200"
      and "snd (handle_link_select eb user (r_body rq)
                  (snd (handle_link_select ea user (r_body rq) d)))
           = snd (handle_link_select ea user (r_body rq) d)"
      and "map (\<lambda>l. (l_patient_selected l, l_doctor_selected l))
             (filter (\<lambda>l. l_patient_id l = u_id user \<and> l_doctor_id l = dv)
                (doctor_patient_links (snd (handle_link_select ea user (r_body rq) d))))
           = [(True,
               case find (\<lambda>l. l_patient_id l = u_id user \<and> l_doctor_id l = dv)
                      (doctor_patient_links d) of
                 None \<Rightarrow> False
               | Some l0 \<Rightarrow> l_doctor_selected l0)]"
    by blast
  then show ?thesis
    unfolding h1 h2 by simp
qed

theorem link_select_idempotent_witness:
  "getProfile ex_db (u_id ex_patient) = Some (hd (profiles ex_db))
   \<and> status (fst (handler ex_env
         (ex_post ''link.select'' ex_patient (empty_body\<lparr>b_doctor_id := Val ex_d2\<rparr>)) ex_db)) = 200
   \<and> snd (handler ex_env
         (ex_post ''link.select'' ex_patient (empty_body\<lparr>b_doctor_id := Val ex_d2\<rparr>))
         (snd (handler ex_env
            (ex_post ''link.select'' ex_patient (empty_body\<lparr>b_doctor_id := Val ex_d2\<rparr>)) ex_db)))
       = snd (handler ex_env
            (ex_post ''link.select'' ex_patient (empty_body\<lparr>b_doctor_id := Val ex_d2\<rparr>)) ex_db)"
proof -
  let ?rq = "ex_post ''link.select'' ex_patient (empty_body\<lparr>b_doctor_id := Val ex_d2\<rparr>)"
  have h1: "r_method ?rq = ''POST''" by (simp add: ex_post_def)
  have h2: "r_auth ?rq = Some ex_patient" by (simp add: ex_post_def)
  have h3: "r_action ?rq = Some ''link.select''" by (simp add: ex_post_def)
  have h4: "getProfile ex_db (u_id ex_patient) = Some (hd (profiles ex_db))"
    by (simp add: getProfile_def ex_db_def ex_patient_def ex_ids)
  have h5: "p_role (hd (profiles ex_db)) = Some ''patient''" by (simp add: ex_db_def)
  have h6: "truthy_text (b_doctor_id (r_body ?rq)) = Some ex_d2"
    by (simp add: ex_post_def empty_body_def ex_ids)
  have g: "getOrCreateLink ex_env (Held (u_id ex_patient)) (Given ex_d2) ex_db
           = Inr (\<lparr>l_id = ''n1'', l_patient_id = ex_p1, l_doctor_id = ex_d2,
                    l_patient_selected = False, l_doctor_selected = False\<rparr>,
                  ex_db\<lparr>doctor_patient_links := doctor_patient_links ex_db
                     @ [\<lparr>l_id = ''n1'', l_patient_id = ex_p1, l_doctor_id = ex_d2,
                         l_patient_selected = False, l_doctor_selected = False\<rparr>]\<rparr>)"
    by (simp add: getOrCreateLink_def uuid_defs insert_link_def has_profile_def ex_db_def
        ex_env_def ex_patient_def Let_def ex_ids)
  have h7: "status (fst (handler ex_env ?rq ex_db)) = 200"
    by (simp add: handler_link_select[OF h1 h2 h3] link_select_patient[OF h4 h5 h6] g)
  from link_select_idempotent[OF h1 h2 h3 h4 h5 h6 h7, of ex_env] h4 h7 show ?thesis
    by simp
qed

section \<open>Daily-record upsert\<close>

lemma data_of_maybeSingle_Some:
  "data_of (maybeSingle xs) = Some x \<Longrightarrow> xs = [x]"
  by (cases xs rule: maybeSingle.cases) auto

lemma distinct_map_replace:
  assumes "distinct (map idf xs)" and "distinct (map k xs)"
    and "\<forall>x \<in> set xs. idf x \<noteq> i \<longrightarrow> k x \<noteq> k h"
  shows "distinct (map k (map (\<lambda>x. if idf x = i then h else x) xs))"
  using assms
proof (induction xs)
  case Nil
  then show ?case by simp
next
  case (Cons a xs)
  let ?f = "\<lambda>x. if idf x = i then h else x"
  from Cons have IH: "distinct (map k (map ?f xs))" by simp
  show ?case
  proof (cases "idf a = i")
    case True
    with Cons.prems(1) have "\<forall>x \<in> set xs. idf x \<noteq> i" by (auto simp: image_iff)
    then have same: "map ?f xs = xs" by (simp add: map_idI)
    from \<open>\<forall>x \<in> set xs. idf x \<noteq> i\<close> Cons.prems(3) have "k h \<notin> k ` set xs" by auto
    with True same Cons.prems(2) show ?thesis by simp
  next
    case False
    with Cons.prems(3) have ne: "k a \<noteq> k h" by simp
    from Cons.prems(2) have "k a \<notin> k ` set xs" by simp
    with ne have "\<forall>x \<in> set xs. k (?f x) \<noteq> k a" by (auto simp: image_iff)
    then have "k a \<notin> (\<lambda>x. k (?f x)) ` set xs" by (auto simp: image_iff)
    with False IH show ?thesis by (simp add: comp_def)
  qed
qed

lemma filter_replace_single:
  assumes "distinct (map idf xs)" and "x0 \<in> set xs" and "idf x0 = i"
    and "\<forall>x \<in> set xs. idf x \<noteq> i \<longrightarrow> \<not> P x" and "P h"
  shows "filter P (map (\<lambda>x. if idf x = i then h else x) xs) = [h]"
proof -
  let ?f = "\<lambda>x. if idf x = i then h else x"
  have "filter P (map ?f xs) = map ?f (filter (P \<circ> ?f) xs)" by (simp add: filter_map)
  also have "filter (P \<circ> ?f) xs = filter (\<lambda>x. idf x = i) xs"
    using assms(4,5) by (intro filter_cong) auto
  also have "\<dots> = [x0]" using filter_key_single[OF assms(1,2,3)] .
  finally show ?thesis using assms(3) by simp
qed

lemma store_habit_fields:
  assumes "store_habit i r = Inr h"
  shows "h_id h = i" and "h_user_id h = hr_user_id r" and "hr_date r = Day (h_date h)"
    and "int4 (hr_steps r) = Inr (h_steps h)" and "int4 (hr_water_cups r) = Inr (h_water_cups h)"
    and "h_sleep_hours h = hr_sleep_hours r"
  using assms by (auto simp: store_habit_def split: datearg.splits sum.splits)

lemma store_habit_id:
  assumes "store_habit i r = Inr h"
  shows "store_habit j r = Inr (h\<lparr>h_id := j\<rparr>)"
  using assms by (auto simp: store_habit_def split: datearg.splits sum.splits)


lemma insert_habit_Inr:
  assumes "insert_habit i r d = Inr d'"
  shows "\<exists>h. store_habit i r = Inr h
            \<and> (\<forall>x \<in> set (habits d). \<not> (h_user_id x = h_user_id h \<and> h_date x = h_date h))
            \<and> (\<forall>x \<in> set (habits d). h_id x \<noteq> i)
            \<and> d' = d\<lparr>habits := habits d @ [h]\<rparr>"
proof (cases "store_habit i r")
  case (Inl err)
  with assms show ?thesis by (simp add: insert_habit_def)
next
  case (Inr h)
  with assms show ?thesis
    by (simp add: insert_habit_def split: if_splits)
qed

lemma update_habit_Inr:
  assumes "update_habit r i d = Inr d'" and "x0 \<in> set (habits d)" and "h_id x0 = i"
  shows "\<exists>h. store_habit i r = Inr h
            \<and> (\<forall>x \<in> set (habits d).
                  h_id x \<noteq> i \<longrightarrow> \<not> (h_user_id x = h_user_id h \<and> h_date x = h_date h))
            \<and> d' = d\<lparr>habits := map (\<lambda>x. if h_id x = i then h else x) (habits d)\<rparr>"
proof (cases "store_habit i r")
  case (Inl err)
  with assms show ?thesis by (simp add: update_habit_def)
next
  case (Inr h)
  from assms(2,3) have "\<not> (\<forall>x \<in> set (habits d). h_id x \<noteq> i)" by blast
  with Inr assms(1) show ?thesis
    by (simp add: update_habit_def split: if_splits) blast
qed


lemma habits_upsert_result:
  assumes ids: "distinct (map h_id (habits d))"
    and ok: "status (fst (handle_habits_upsert e user b d)) = 200"
  shows "\<exists>i h. store_habit i (habits_row e user b) = Inr h
           \<and> (\<forall>x0. existing_habit d (u_id user) (hr_date (habits_row e user b)) = Some x0
                  \<longrightarrow> i = h_id x0)
           \<and> filter (\<lambda>x. h_user_id x = u_id user \<and> h_date x = h_date h)
                (habits (snd (handle_habits_upsert e user b d))) = [h]"
proof -
  let ?row = "habits_row e user b"
  have u: "hr_user_id ?row = u_id user" by (simp add: habits_row_def)
  show ?thesis
  proof (cases "existing_habit d (u_id user) (hr_date ?row)")
    case None
    from ok None obtain d' where ins: "insert_habit (new_id e) ?row d = Inr d'"
      by (cases "insert_habit (new_id e) ?row d") (simp_all add: handle_habits_upsert_def Let_def)
    with None have res: "handle_habits_upsert e user b d = (Resp 200 Ok, d')"
      by (simp add: handle_habits_upsert_def Let_def)
    from insert_habit_Inr[OF ins] obtain h where h: "store_habit (new_id e) ?row = Inr h"
      and none: "\<forall>x \<in> set (habits d). \<not> (h_user_id x = h_user_id h \<and> h_date x = h_date h)"
      and d': "d' = d\<lparr>habits := habits d @ [h]\<rparr>"
      by blast
    from store_habit_fields(2)[OF h] u have hu: "h_user_id h = u_id user" by simp
    from none hu have "filter (\<lambda>x. h_user_id x = u_id user \<and> h_date x = h_date h) (habits d) = []"
      by (simp add: filter_empty_conv)
    with d' hu have "filter (\<lambda>x. h_user_id x = u_id user \<and> h_date x = h_date h) (habits d') = [h]"
      by simp
    with h res None show ?thesis by (intro exI[of _ "new_id e"] exI[of _ h]) simp
  next
    case (Some ex)
    then obtain n where n: "hr_date ?row = Day n"
      by (cases "hr_date ?row") (simp_all add: existing_habit_def)
    with Some have f: "filter (\<lambda>x. h_user_id x = u_id user \<and> h_date x = n) (habits d) = [ex]"
      by (simp add: existing_habit_def data_of_maybeSingle_Some)
    then have "ex \<in> set (filter (\<lambda>x. h_user_id x = u_id user \<and> h_date x = n) (habits d))"
      by simp
    then have ex: "ex \<in> set (habits d)" by simp
    from ok Some obtain d' where upd: "update_habit ?row (h_id ex) d = Inr d'"
      by (cases "update_habit ?row (h_id ex) d") (simp_all add: handle_habits_upsert_def Let_def)
    with Some have res: "handle_habits_upsert e user b d = (Resp 200 Ok, d')"
      by (simp add: handle_habits_upsert_def Let_def)
    from update_habit_Inr[OF upd ex refl] obtain h where h: "store_habit (h_id ex) ?row = Inr h"
      and other: "\<forall>x \<in> set (habits d).
                    h_id x \<noteq> h_id ex \<longrightarrow> \<not> (h_user_id x = h_user_id h \<and> h_date x = h_date h)"
      and d': "d' = d\<lparr>habits := map (\<lambda>x. if h_id x = h_id ex then h else x) (habits d)\<rparr>"
      by blast
    from store_habit_fields(2)[OF h] u have hu: "h_user_id h = u_id user" by simp
    from other hu have other':
      "\<forall>x \<in> set (habits d). h_id x \<noteq> h_id ex \<longrightarrow> \<not> (h_user_id x = u_id user \<and> h_date x = h_date h)"
      by simp
    have "filter (\<lambda>x. h_user_id x = u_id user \<and> h_date x = h_date h)
            (map (\<lambda>x. if h_id x = h_id ex then h else x) (habits d)) = [h]"
      using filter_replace_single[OF ids ex refl other'] hu by simp
    with d' have "filter (\<lambda>x. h_user_id x = u_id user \<and> h_date x = h_date h) (habits d') = [h]"
      by simp
    with h res Some show ?thesis by (intro exI[of _ "h_id ex"] exI[of _ h]) simp
  qed
qed

lemma store_vital_fields:
  assumes "store_vital i r = Inr v"
  shows "v_id v = i" and "v_user_id v = vr_user_id r" and "vr_date r = Day (v_date v)"
    and "int4_opt (vr_blood_glucose r) = Inr (v_blood_glucose v)"
    and "int4_opt (vr_blood_pressure_sys r) = Inr (v_blood_pressure_sys v)"
    and "int4_opt (vr_blood_pressure_dia r) = Inr (v_blood_pressure_dia v)"
    and "int4_opt (vr_heart_rate r) = Inr (v_heart_rate v)"
    and "v_body_temperature v = vr_body_temperature r"
  using assms by (auto simp: store_vital_def split: datearg.splits sum.splits)

lemma insert_vital_Inr:
  assumes "insert_vital i r d = Inr d'"
  shows "\<exists>v. store_vital i r = Inr v
            \<and> (\<forall>x \<in> set (vitals d). \<not> (v_user_id x = v_user_id v \<and> v_date x = v_date v))
            \<and> (\<forall>x \<in> set (vitals d). v_id x \<noteq> i)
            \<and> d' = d\<lparr>vitals := vitals d @ [v]\<rparr>"
proof (cases "store_vital i r")
  case (Inl err)
  with assms show ?thesis by (simp add: insert_vital_def)
next
  case (Inr v)
  with assms show ?thesis
    by (simp add: insert_vital_def split: if_splits)
qed

lemma update_vital_Inr:
  assumes "update_vital r i d = Inr d'" and "x0 \<in> set (vitals d)" and "v_id x0 = i"
  shows "\<exists>v. store_vital i r = Inr v
            \<and> (\<forall>x \<in> set (vitals d).
                  v_id x \<noteq> i \<longrightarrow> \<not> (v_user_id x = v_user_id v \<and> v_date x = v_date v))
            \<and> d' = d\<lparr>vitals := map (\<lambda>x. if v_id x = i then v else x) (vitals d)\<rparr>"
proof (cases "store_vital i r")
  case (Inl err)
  with assms show ?thesis by (simp add: update_vital_def)
next
  case (Inr v)
  from assms(2,3) have "\<not> (\<forall>x \<in> set (vitals d). v_id x \<noteq> i)" by blast
  with Inr assms(1) show ?thesis
    by (simp add: update_vital_def split: if_splits) blast
qed

lemma vitals_upsert_result:
  assumes ids: "distinct (map v_id (vitals d))"
    and ok: "status (fst (handle_vitals_upsert e user b d)) = 200"
  shows "\<exists>i v. store_vital i (vitals_row e user b) = Inr v
           \<and> (\<forall>x0. existing_vital d (u_id user) (vr_date (vitals_row e user b)) = Some x0
                  \<longrightarrow> i = v_id x0)
           \<and> filter (\<lambda>x. v_user_id x = u_id user \<and> v_date x = v_date v)
                (vitals (snd (handle_vitals_upsert e user b d))) = [v]"
proof -
  let ?row = "vitals_row e user b"
  have u: "vr_user_id ?row = u_id user" by (simp add: vitals_row_def)
  show ?thesis
  proof (cases "existing_vital d (u_id user) (vr_date ?row)")
    case None
    from ok None obtain d' where ins: "insert_vital (new_id e) ?row d = Inr d'"
      by (cases "insert_vital (new_id e) ?row d") (simp_all add: handle_vitals_upsert_def Let_def)
    with None have res: "handle_vitals_upsert e user b d = (Resp 200 Ok, d')"
      by (simp add: handle_vitals_upsert_def Let_def)
    from insert_vital_Inr[OF ins] obtain v where v: "store_vital (new_id e) ?row = Inr v"
      and none: "\<forall>x \<in> set (vitals d). \<not> (v_user_id x = v_user_id v \<and> v_date x = v_date v)"
      and d': "d' = d\<lparr>vitals := vitals d @ [v]\<rparr>"
      by blast
    from store_vital_fields(2)[OF v] u have vu: "v_user_id v = u_id user" by simp
    from none vu have "filter (\<lambda>x. v_user_id x = u_id user \<and> v_date x = v_date v) (vitals d) = []"
      by (simp add: filter_empty_conv)
    with d' vu have "filter (\<lambda>x. v_user_id x = u_id user \<and> v_date x = v_date v) (vitals d') = [v]"
      by simp
    with v res None show ?thesis by (intro exI[of _ "new_id e"] exI[of _ v]) simp
  next
    case (Some ex)
    then obtain n where n: "vr_date ?row = Day n"
      by (cases "vr_date ?row") (simp_all add: existing_vital_def)
    with Some have f: "filter (\<lambda>x. v_user_id x = u_id user \<and> v_date x = n) (vitals d) = [ex]"
      by (simp add: existing_vital_def data_of_maybeSingle_Some)
    then have "ex \<in> set (filter (\<lambda>x. v_user_id x = u_id user \<and> v_date x = n) (vitals d))"
      by simp
    then have ex: "ex \<in> set (vitals d)" by simp
    from ok Some obtain d' where upd: "update_vital ?row (v_id ex) d = Inr d'"
      by (cases "update_vital ?row (v_id ex) d") (simp_all add: handle_vitals_upsert_def Let_def)
    with Some have res: "handle_vitals_upsert e user b d = (Resp 200 Ok, d')"
      by (simp add: handle_vitals_upsert_def Let_def)
    from update_vital_Inr[OF upd ex refl] obtain v where v: "store_vital (v_id ex) ?row = Inr v"
      and other: "\<forall>x \<in> set (vitals d).
                    v_id x \<noteq> v_id ex \<longrightarrow> \<not> (v_user_id x = v_user_id v \<and> v_date x = v_date v)"
      and d': "d' = d\<lparr>vitals := map (\<lambda>x. if v_id x = v_id ex then v else x) (vitals d)\<rparr>"
      by blast
    from store_vital_fields(2)[OF v] u have vu: "v_user_id v = u_id user" by simp
    from other vu have other':
      "\<forall>x \<in> set (vitals d). v_id x \<noteq> v_id ex \<longrightarrow> \<not> (v_user_id x = u_id user \<and> v_date x = v_date v)"
      by simp
    have "filter (\<lambda>x. v_user_id x = u_id user \<and> v_date x = v_date v)
            (map (\<lambda>x. if v_id x = v_id ex then v else x) (vitals d)) = [v]"
      using filter_replace_single[OF ids ex refl other'] vu by simp
    with d' have "filter (\<lambda>x. v_user_id x = u_id user \<and> v_date x = v_date v) (vitals d') = [v]"
      by simp
    with v res Some show ?thesis by (intro exI[of _ "v_id ex"] exI[of _ v]) simp
  qed
qed

section \<open>The keys of the schema hold in every reachable store\<close>

lemma map_replace_same_key:
  assumes "k h = i"
  shows "map k (map (\<lambda>x. if k x = i then h else x) xs) = map k xs"
  using assms by (induction xs) auto

lemma db_ok_insert_habit:
  assumes "db_ok d" and "insert_habit i r d = Inr d'"
  shows "db_ok d'"
proof -
  from insert_habit_Inr[OF assms(2)] obtain h where h: "store_habit i r = Inr h"
    and k: "\<forall>x \<in> set (habits d). \<not> (h_user_id x = h_user_id h \<and> h_date x = h_date h)"
    and i: "\<forall>x \<in> set (habits d). h_id x \<noteq> i"
    and d': "d' = d\<lparr>habits := habits d @ [h]\<rparr>"
    by blast
  from i store_habit_fields(1)[OF h] have "h_id h \<notin> h_id ` set (habits d)" by auto
  moreover from k have "(h_user_id h, h_date h) \<notin> (\<lambda>x. (h_user_id x, h_date x)) ` set (habits d)"
    by auto
  ultimately show ?thesis using assms(1) by (simp add: db_ok_def d')
qed

lemma db_ok_update_habit:
  assumes "db_ok d" and "update_habit r i d = Inr d'"
  shows "db_ok d'"
proof (cases "\<exists>x0 \<in> set (habits d). h_id x0 = i")
  case False
  with assms(2) have "d' = d"
    by (auto simp: update_habit_def split: sum.splits if_splits)
  with assms(1) show ?thesis by simp
next
  case True
  then obtain x0 where x0: "x0 \<in> set (habits d)" "h_id x0 = i" by blast
  from update_habit_Inr[OF assms(2) x0] obtain h where h: "store_habit i r = Inr h"
    and other: "\<forall>x \<in> set (habits d).
                  h_id x \<noteq> i \<longrightarrow> \<not> (h_user_id x = h_user_id h \<and> h_date x = h_date h)"
    and d': "d' = d\<lparr>habits := map (\<lambda>x. if h_id x = i then h else x) (habits d)\<rparr>"
    by blast
  from assms(1) have ids: "distinct (map h_id (habits d))"
    and keys: "distinct (map (\<lambda>x. (h_user_id x, h_date x)) (habits d))"
    by (simp_all add: db_ok_def)
  from other have other': "\<forall>x \<in> set (habits d).
      h_id x \<noteq> i \<longrightarrow> (h_user_id x, h_date x) \<noteq> (h_user_id h, h_date h)" by simp
  have 1: "distinct (map h_id (map (\<lambda>x. if h_id x = i then h else x) (habits d)))"
    by (subst map_replace_same_key[where k=h_id and h=h and i=i, OF store_habit_fields(1)[OF h]]) (rule ids)
  have 2: "distinct (map (\<lambda>x. (h_user_id x, h_date x))
             (map (\<lambda>x. if h_id x = i then h else x) (habits d)))"
    by (rule distinct_map_replace[OF ids keys other'])
  from 1 2 assms(1) show ?thesis by (simp add: db_ok_def d')
qed

lemma db_ok_habits_upsert:
  assumes "db_ok d"
  shows "db_ok (snd (handle_habits_upsert e user b d))"
  using assms db_ok_insert_habit[OF assms] db_ok_update_habit[OF assms]
  by (auto simp: handle_habits_upsert_def Let_def split: option.splits sum.splits)

lemma db_ok_insert_vital:
  assumes "db_ok d" and "insert_vital i r d = Inr d'"
  shows "db_ok d'"
proof -
  from insert_vital_Inr[OF assms(2)] obtain v where v: "store_vital i r = Inr v"
    and k: "\<forall>x \<in> set (vitals d). \<not> (v_user_id x = v_user_id v \<and> v_date x = v_date v)"
    and i: "\<forall>x \<in> set (vitals d). v_id x \<noteq> i"
    and d': "d' = d\<lparr>vitals := vitals d @ [v]\<rparr>"
    by blast
  from i store_vital_fields(1)[OF v] have "v_id v \<notin> v_id ` set (vitals d)" by auto
  moreover from k have "(v_user_id v, v_date v) \<notin> (\<lambda>x. (v_user_id x, v_date x)) ` set (vitals d)"
    by auto
  ultimately show ?thesis using assms(1) by (simp add: db_ok_def d')
qed

lemma db_ok_update_vital:
  assumes "db_ok d" and "update_vital r i d = Inr d'"
  shows "db_ok d'"
proof (cases "\<exists>x0 \<in> set (vitals d). v_id x0 = i")
  case False
  with assms(2) have "d' = d"
    by (auto simp: update_vital_def split: sum.splits if_splits)
  with assms(1) show ?thesis by simp
next
  case True
  then obtain x0 where x0: "x0 \<in> set (vitals d)" "v_id x0 = i" by blast
  from update_vital_Inr[OF assms(2) x0] obtain v where v: "store_vital i r = Inr v"
    and other: "\<forall>x \<in> set (vitals d).
                  v_id x \<noteq> i \<longrightarrow> \<not> (v_user_id x = v_user_id v \<and> v_date x = v_date v)"
    and d': "d' = d\<lparr>vitals := map (\<lambda>x. if v_id x = i then v else x) (vitals d)\<rparr>"
    by blast
  from assms(1) have ids: "distinct (map v_id (vitals d))"
    and keys: "distinct (map (\<lambda>x. (v_user_id x, v_date x)) (vitals d))"
    by (simp_all add: db_ok_def)
  from other have other': "\<forall>x \<in> set (vitals d).
      v_id x \<noteq> i \<longrightarrow> (v_user_id x, v_date x) \<noteq> (v_user_id v, v_date v)" by simp
  have 1: "distinct (map v_id (map (\<lambda>x. if v_id x = i then v else x) (vitals d)))"
    by (subst map_replace_same_key[where k=v_id and h=v and i=i, OF store_vital_fields(1)[OF v]]) (rule ids)
  have 2: "distinct (map (\<lambda>x. (v_user_id x, v_date x))
             (map (\<lambda>x. if v_id x = i then v else x) (vitals d)))"
    by (rule distinct_map_replace[OF ids keys other'])
  from 1 2 assms(1) show ?thesis by (simp add: db_ok_def d')
qed

lemma db_ok_vitals_upsert:
  assumes "db_ok d"
  shows "db_ok (snd (handle_vitals_upsert e user b d))"
  using assms db_ok_insert_vital[OF assms] db_ok_update_vital[OF assms]
  by (auto simp: handle_vitals_upsert_def Let_def split: option.splits sum.splits)

lemma db_ok_links_cong:
  assumes "db_ok d" and "map l_id ls = map l_id (doctor_patient_links d)"
    and "map (\<lambda>l. (l_patient_id l, l_doctor_id l)) ls
         = map (\<lambda>l. (l_patient_id l, l_doctor_id l)) (doctor_patient_links d)"
  shows "db_ok (d\<lparr>doctor_patient_links := ls\<rparr>)"
  using assms by (simp add: db_ok_def)

lemma db_ok_set_patient_selected:
  "db_ok d \<Longrightarrow> db_ok (set_patient_selected i d)"
  unfolding set_patient_selected_def
  by (rule db_ok_links_cong) (simp_all add: comp_def if_distrib cong: if_cong)

lemma db_ok_set_doctor_selected:
  "db_ok d \<Longrightarrow> db_ok (set_doctor_selected i d)"
  unfolding set_doctor_selected_def
  by (rule db_ok_links_cong) (simp_all add: comp_def if_distrib cong: if_cong)

lemma db_ok_getOrCreateLink:
  assumes "db_ok d" and "getOrCreateLink e pa da d = Inr (l, d')"
  shows "db_ok d'"
proof -
  from assms(2) obtain p dc where rd: "store_reads pa = Some p" "store_reads da = Some dc"
    by (auto simp: getOrCreateLink_def split: option.splits)
  show ?thesis
  proof (cases "data_of (maybeSingle (filter (\<lambda>l. l_patient_id l = p \<and> l_doctor_id l = dc)
                                      (doctor_patient_links d)))")
    case (Some l0)
    with assms rd show ?thesis by (simp add: getOrCreateLink_def)
  next
    case None
    with assms(2) rd have ins: "insert_link l d = Inr d'"
      by (auto simp: getOrCreateLink_def Let_def split: sum.splits)
    then have i: "l_id l \<notin> l_id ` set (doctor_patient_links d)"
      and k: "(l_patient_id l, l_doctor_id l)
              \<notin> (\<lambda>l. (l_patient_id l, l_doctor_id l)) ` set (doctor_patient_links d)"
      and d': "d' = d\<lparr>doctor_patient_links := doctor_patient_links d @ [l]\<rparr>"
      by (auto simp: insert_link_def split: if_splits)
    with assms(1) show ?thesis by (simp add: db_ok_def)
  qed
qed

lemma db_ok_link_select:
  assumes "db_ok d"
  shows "db_ok (snd (handle_link_select e user b d))"
  using assms db_ok_getOrCreateLink[OF assms] db_ok_set_patient_selected db_ok_set_doctor_selected
  unfolding handle_link_select_def
  by (auto split: option.splits sum.splits prod.splits)


lemma db_ok_upsert_profile:
  assumes "db_ok d" and "upsert_profile i em nm rl d = Inr d'"
  shows "db_ok d'"
proof -
  let ?old = "find (\<lambda>p. p_id p = i) (profiles d)"
  define row where "row =
     \<lparr>p_id = i,
      p_email = (case em of
                   Some m \<Rightarrow> Some m
                 | None \<Rightarrow> (case ?old of None \<Rightarrow> None | Some p \<Rightarrow> p_email p)),
      p_name = column nm (case ?old of None \<Rightarrow> None | Some p \<Rightarrow> p_name p),
      p_role = column rl (case ?old of None \<Rightarrow> None | Some p \<Rightarrow> p_role p)\<rparr>"
  have row: "p_id row = i" by (simp add: row_def)
  from assms(2)
  have d': "d' = d\<lparr>profiles := (if ?old = None then profiles d @ [row]
                                   else map (\<lambda>p. if p_id p = i then row else p) (profiles d))\<rparr>"
    unfolding upsert_profile_def Let_def row_def[symmetric]
    by (auto split: if_splits)
  from assms(1) have ids: "distinct (map p_id (profiles d))" by (simp add: db_ok_def)
  have "distinct (map p_id (profiles d'))"
  proof (cases ?old)
    case None
    then have "i \<notin> p_id ` set (profiles d)" by (auto simp: find_None_iff)
    with None ids row show ?thesis by (simp add: d')
  next
    case (Some y)
    have "distinct (map p_id (map (\<lambda>p. if p_id p = i then row else p) (profiles d)))"
      by (subst map_replace_same_key[where k=p_id and h=row and i=i, OF row]) (rule ids)
    with Some show ?thesis by (simp add: d')
  qed
  with assms(1) show ?thesis by (simp add: db_ok_def d')
qed

lemma db_ok_upsert_patient:
  "db_ok d \<Longrightarrow> upsert_patient row d = Inr d' \<Longrightarrow> db_ok d'"
  by (auto simp: upsert_patient_def db_ok_def split: if_splits)

lemma db_ok_upsert_doctor:
  "db_ok d \<Longrightarrow> upsert_doctor row d = Inr d' \<Longrightarrow> db_ok d'"
  by (auto simp: upsert_doctor_def db_ok_def split: if_splits)

lemma db_ok_ensureProfile:
  assumes "db_ok d"
  shows "db_ok (snd (ensureProfile i em b d))"
proof (cases "upsert_profile i em (b_name b) (b_role b) d")
  case (Inl err)
  with assms show ?thesis by (simp add: ensureProfile_def)
next
  case (Inr d1)
  note ok1 = db_ok_upsert_profile[OF assms Inr]
  show ?thesis
    using Inr ok1 db_ok_upsert_patient[OF ok1] db_ok_upsert_doctor[OF ok1]
    by (auto simp: ensureProfile_def split: sum.splits)
qed

lemma db_ok_profile_upsert:
  assumes "db_ok d"
  shows "db_ok (snd (handle_profile_upsert user b d))"
  using db_ok_ensureProfile[OF assms, of "u_id user" "u_email user" b]
  by (cases "ensureProfile (u_id user) (u_email user) b d")
     (auto simp: handle_profile_upsert_def split: option.splits)

lemma db_ok_handler:
  assumes "db_ok d"
  shows "db_ok (snd (handler e rq d))"
  unfolding handler_def Let_def
  by (simp add: assms db_ok_link_select db_ok_profile_upsert db_ok_habits_upsert
      db_ok_vitals_upsert split: option.splits)

lemma db_ok_run:
  "db_ok d \<Longrightarrow> db_ok (run reqs d)"
proof (induction reqs arbitrary: d)
  case Nil
  then show ?case by simp
next
  case (Cons a reqs)
  obtain e rq where a: "a = (e, rq)" by (cases a)
  from Cons.prems have "db_ok (snd (handler e rq d))" by (rule db_ok_handler)
  then show ?case using Cons.IH by (simp add: a)
qed

lemma db_ok_empty:
  "db_ok \<lparr>profiles = [], patient_profiles = [], doctor_profiles = [], habits = [], vitals = [],
          doctor_patient_links = []\<rparr>"
  by (simp add: db_ok_def)

section \<open>What an upsert stores\<close>

lemma handler_habits_upsert:
  "r_method rq = ''POST'' \<Longrightarrow> r_auth rq = Some user \<Longrightarrow> r_action rq = Some ''habits.upsert''
   \<Longrightarrow> handler e rq d = handle_habits_upsert e user (r_body rq) d"
  by (simp add: handler_def)

lemma handler_vitals_upsert:
  "r_method rq = ''POST'' \<Longrightarrow> r_auth rq = Some user \<Longrightarrow> r_action rq = Some ''vitals.upsert''
   \<Longrightarrow> handler e rq d = handle_vitals_upsert e user (r_body rq) d"
  by (simp add: handler_def)

lemma db_ok_habit_ids: "db_ok d \<Longrightarrow> distinct (map h_id (habits d))"
  by (simp add: db_ok_def)

lemma db_ok_vital_ids: "db_ok d \<Longrightarrow> distinct (map v_id (vitals d))"
  by (simp add: db_ok_def)



lemmas parse_defs = parseInt_def parseInt_str_def parseFloat_def parseFloat_str_def toInt_def
  toFloat_def split_sign_def ws_len_def ws_codes_def is_digit_def digit_val_def dec_value_def
  number_def dbl_overflow_def signed_def exponent_part_def scale10_def fraction_part_def
  or_default_def dbl_zero_def

lemmas store_defs = store_habit_def store_vital_def int4_def int4_opt_def insert_habit_def
  update_habit_def insert_vital_def update_vital_def has_profile_def existing_habit_def
  existing_vital_def habits_row_def vitals_row_def

lemma not_numeric_toInt:
  assumes "not_numeric v"
  shows "toInt v = None"
proof -
  obtain neg t where s: "split_sign (skip_ws (to_string v)) = (neg, t)"
    by (cases "split_sign (skip_ws (to_string v))")
  from assms s have "takeWhile is_digit t = []"
    by (cases t) (simp_all add: not_numeric_def)
  with s show ?thesis
    by (simp add: toInt_def parseInt_def parseInt_str_def)
qed

lemma not_decimal_toFloat:
  assumes "not_decimal v"
  shows "toFloat v = None"
proof -
  obtain neg t where s: "split_sign (skip_ws (to_string v)) = (neg, t)"
    by (cases "split_sign (skip_ws (to_string v))")
  have "parseFloat_str (to_string v) \<in> {NaN, PInf, NInf}"
  proof (cases t)
    case Nil
    with s show ?thesis by (simp add: parseFloat_str_def fraction_part_def)
  next
    case (Cons c cs)
    with assms s have c: "\<not> is_digit c"
      and dot: "c = CHR ''.'' \<Longrightarrow> takeWhile is_digit cs = []"
      by (auto simp: not_decimal_def split: list.splits)
    from c Cons have i: "takeWhile is_digit t = []" and dr: "dropWhile is_digit t = c # cs"
      by simp_all
    obtain f r where fr: "fraction_part (c # cs) = (f, r)"
      by (cases "fraction_part (c # cs)")
    with dot have "f = []" by (auto simp: fraction_part_def split: if_splits)
    with s i dr fr show ?thesis
      by (simp add: parseFloat_str_def Let_def)
  qed
  then show ?thesis by (auto simp: toFloat_def parseFloat_def)
qed

lemma missing_not_numeric:
  "not_numeric JUndefined" "not_numeric JNull" "not_decimal JUndefined" "not_decimal JNull"
  by (simp_all add: not_numeric_def not_decimal_def split_sign_def ws_len_def ws_codes_def
      is_digit_def)

lemma int4_Inr: "int4 x = Inr s \<Longrightarrow> of_int s = x \<and> s = \<lfloor>x\<rfloor>"
  by (auto simp: int4_def split: if_splits)

lemma int4_zero: "int4 0 = Inr 0"
  by (simp add: int4_def)

lemma int4_opt_Inr: "int4_opt x = Inr y \<Longrightarrow> y = map_option floor x"
  by (cases x) (auto simp: int4_opt_def dest: int4_Inr split: sum.splits)

lemma or_default_None: "or_default None dflt = dflt"
  by (simp add: or_default_def)




lemma habits_row_date: "hr_date (habits_row e user b) = date_or_today e (b_date b)"
  by (simp add: habits_row_def)

lemma vitals_row_date: "vr_date (vitals_row e user b) = date_or_today e (b_date b)"
  by (simp add: vitals_row_def)

lemma habits_upsert_stored:
  assumes "db_ok d" and "status (fst (handle_habits_upsert e user b d)) = 200"
  shows "\<exists>h. filter (\<lambda>x. h_user_id x = u_id user \<and> Day (h_date x) = date_or_today e (b_date b))
               (habits (snd (handle_habits_upsert e user b d))) = [h]
           \<and> int4 (or_default (toInt (b_steps b)) 0) = Inr (h_steps h)
           \<and> int4 (or_default (toInt (b_water_cups b)) 0) = Inr (h_water_cups h)
           \<and> h_sleep_hours h = or_default (toFloat (b_sleep_hours b)) 0"
proof -
  from habits_upsert_result[OF db_ok_habit_ids[OF assms(1)] assms(2)]
  obtain i h where h: "store_habit i (habits_row e user b) = Inr h"
    and f: "filter (\<lambda>x. h_user_id x = u_id user \<and> h_date x = h_date h)
              (habits (snd (handle_habits_upsert e user b d))) = [h]"
    by blast
  from store_habit_fields(3)[OF h] have dt: "date_or_today e (b_date b) = Day (h_date h)"
    by (simp add: habits_row_date)
  from store_habit_fields(4,5,6)[OF h]
  have v: "int4 (or_default (toInt (b_steps b)) 0) = Inr (h_steps h)"
      "int4 (or_default (toInt (b_water_cups b)) 0) = Inr (h_water_cups h)"
      "h_sleep_hours h = or_default (toFloat (b_sleep_hours b)) 0"
    by (simp_all add: habits_row_def)
  from f dt v show ?thesis by (intro exI[of _ h]) simp
qed

lemma vitals_upsert_stored:
  assumes "db_ok d" and "status (fst (handle_vitals_upsert e user b d)) = 200"
  shows "\<exists>i. (\<forall>x0. existing_vital d (u_id user) (date_or_today e (b_date b)) = Some x0
                  \<longrightarrow> i = v_id x0)
           \<and> (\<exists>n. date_or_today e (b_date b) = Day n
           \<and> filter (\<lambda>x. v_user_id x = u_id user \<and> Day (v_date x) = date_or_today e (b_date b))
               (vitals (snd (handle_vitals_upsert e user b d)))
             = [\<lparr>v_id = i, v_user_id = u_id user, v_date = n,
                 v_blood_glucose = map_option floor (toInt (b_blood_glucose b)),
                 v_blood_pressure_sys = map_option floor (toInt (b_blood_pressure_sys b)),
                 v_blood_pressure_dia = map_option floor (toInt (b_blood_pressure_dia b)),
                 v_heart_rate = map_option floor (toInt (b_heart_rate b)),
                 v_body_temperature = toFloat (b_body_temperature b)\<rparr>])"
proof -
  from vitals_upsert_result[OF db_ok_vital_ids[OF assms(1)] assms(2)]
  obtain i v where v: "store_vital i (vitals_row e user b) = Inr v"
    and i: "\<forall>x0. existing_vital d (u_id user) (vr_date (vitals_row e user b)) = Some x0
                  \<longrightarrow> i = v_id x0"
    and f: "filter (\<lambda>x. v_user_id x = u_id user \<and> v_date x = v_date v)
              (vitals (snd (handle_vitals_upsert e user b d))) = [v]"
    by blast
  from store_vital_fields(3)[OF v] have dt: "date_or_today e (b_date b) = Day (v_date v)"
    by (simp add: vitals_row_date)
  have row: "v = \<lparr>v_id = i, v_user_id = u_id user, v_date = v_date v,
                 v_blood_glucose = map_option floor (toInt (b_blood_glucose b)),
                 v_blood_pressure_sys = map_option floor (toInt (b_blood_pressure_sys b)),
                 v_blood_pressure_dia = map_option floor (toInt (b_blood_pressure_dia b)),
                 v_heart_rate = map_option floor (toInt (b_heart_rate b)),
                 v_body_temperature = toFloat (b_body_temperature b)\<rparr>"
    using store_vital_fields(1,2,8)[OF v]
      int4_opt_Inr[OF store_vital_fields(4)[OF v]] int4_opt_Inr[OF store_vital_fields(5)[OF v]]
      int4_opt_Inr[OF store_vital_fields(6)[OF v]] int4_opt_Inr[OF store_vital_fields(7)[OF v]]
    by (simp add: vitals_row_def)
  from i have i': "\<forall>x0. existing_vital d (u_id user) (date_or_today e (b_date b)) = Some x0
                  \<longrightarrow> i = v_id x0"
    by (simp add: vitals_row_date)
  from f dt have "filter (\<lambda>x. v_user_id x = u_id user \<and> Day (v_date x) = date_or_today e (b_date b))
               (vitals (snd (handle_vitals_upsert e user b d))) = [v]"
    by simp
  with row have "filter (\<lambda>x. v_user_id x = u_id user \<and> Day (v_date x) = date_or_today e (b_date b))
               (vitals (snd (handle_vitals_upsert e user b d)))
             = [\<lparr>v_id = i, v_user_id = u_id user, v_date = v_date v,
                 v_blood_glucose = map_option floor (toInt (b_blood_glucose b)),
                 v_blood_pressure_sys = map_option floor (toInt (b_blood_pressure_sys b)),
                 v_blood_pressure_dia = map_option floor (toInt (b_blood_pressure_dia b)),
                 v_heart_rate = map_option floor (toInt (b_heart_rate b)),
                 v_body_temperature = toFloat (b_body_temperature b)\<rparr>]"
    by simp
  with i' dt show ?thesis by blast
qed


lemma toInt_lenient: "toInt v = map_option of_int (lenient_int v)"
proof -
  obtain neg t where s: "split_sign (skip_ws (to_string v)) = (neg, t)"
    by (cases "split_sign (skip_ws (to_string v))")
  have nn: "(0::rat) \<le> of_nat (dec_value (takeWhile is_digit t))" by simp
  have pos: "(0::rat) < dbl_overflow" by (simp add: dbl_overflow_def)
  show ?thesis
    using s nn pos
    by (auto simp: toInt_def parseInt_def parseInt_str_def lenient_int_def number_def signed_def
        Let_def)
qed

lemma dbl_zero_of_int: "dbl_zero (of_int k) \<longleftrightarrow> k = 0"
proof
  assume a: "dbl_zero (of_int k)"
  show "k = 0"
  proof (rule ccontr)
    assume "k \<noteq> 0"
    then have "(1::rat) \<le> \<bar>of_int k\<bar>" by (simp add: abs_if)
    then have "(2::rat) ^ 1075 \<le> \<bar>of_int k\<bar> * 2 ^ 1075" by simp
    moreover have "(1::rat) < 2 ^ 1075" by simp
    ultimately show False using a by (simp add: dbl_zero_def)
  qed
qed (simp add: dbl_zero_def)

lemma or_default_lenient:
  "or_default (map_option of_int x) 0 = of_int (case x of None \<Rightarrow> 0 | Some k \<Rightarrow> k)"
  by (cases x) (simp_all add: or_default_def dbl_zero_of_int)

lemma int4_lenient_or_zero:
  assumes "int4 (or_default (toInt v) 0) = Inr s"
  shows "s = (case lenient_int v of None \<Rightarrow> 0 | Some k \<Rightarrow> k)"
proof -
  from int4_Inr[OF assms]
  have "(of_int s :: rat) = of_int (case lenient_int v of None \<Rightarrow> 0 | Some k \<Rightarrow> k)"
    by (simp add: toInt_lenient or_default_lenient)
  then show ?thesis by (simp only: of_int_eq_iff)
qed

lemma floor_toInt_lenient: "map_option floor (toInt v) = lenient_int v"
  by (cases "lenient_int v") (simp_all add: toInt_lenient)

lemma not_numeric_lenient: "not_numeric v \<Longrightarrow> lenient_int v = None"
  using not_numeric_toInt[of v] by (cases "lenient_int v") (simp_all add: toInt_lenient)

text \<open>
  Claim C6, amended. Under the keys of the schema, when \<^verbatim>\<open>habits.upsert\<close> or
  \<^verbatim>\<open>vitals.upsert\<close> succeeds, the store holds exactly one row of the caller for the
  request's date; that date is the date of the server's clock (in UTC) when the body gives
  none. Numbers are read from the start of a value: \<^verbatim>\<open>steps\<close> and \<^verbatim>\<open>water_cups\<close>
  are stored as the whole number the value starts with, and as 0 when it starts with none;
  \<^verbatim>\<open>sleep_hours\<close> as the decimal number \<^verbatim>\<open>parseFloat\<close> reads from the start of the
  value, and as 0 when there is none; the four whole-number vital fields as the whole number
  the value starts with and the temperature as the decimal number it starts with, each null
  when there is none. So a value that is missing or does not start with a number is stored as
  0 in a habit field and as null in a vital field, and a value that starts with a number is
  stored as that number whatever follows it. The values \<^verbatim>\<open>undefined\<close> and \<^verbatim>\<open>null\<close>
  start with no number.
\<close>

theorem upsert_defaults:
  assumes "db_ok d" and "r_method rq = ''POST''" and "r_auth rq = Some user"
    and "status (fst (handler e rq d)) = 200"
  shows "(r_action rq = Some ''habits.upsert'' \<longrightarrow>
            (\<exists>h. filter (\<lambda>x. h_user_id x = u_id user
                              \<and> Day (h_date x) = date_or_today e (b_date (r_body rq)))
                    (habits (snd (handler e rq d))) = [h]
                \<and> (b_date (r_body rq) = NoDate \<longrightarrow> h_date h = today e)
                \<and> h_steps h = (case lenient_int (b_steps (r_body rq)) of
                                 None \<Rightarrow> 0 | Some k \<Rightarrow> k)
                \<and> h_water_cups h = (case lenient_int (b_water_cups (r_body rq)) of
                                      None \<Rightarrow> 0 | Some k \<Rightarrow> k)
                \<and> h_sleep_hours h = or_default (toFloat (b_sleep_hours (r_body rq))) 0
                \<and> (not_numeric (b_steps (r_body rq)) \<longrightarrow> h_steps h = 0)
                \<and> (not_numeric (b_water_cups (r_body rq)) \<longrightarrow> h_water_cups h = 0)
                \<and> (not_decimal (b_sleep_hours (r_body rq)) \<longrightarrow> h_sleep_hours h = 0)))
       \<and> (r_action rq = Some ''vitals.upsert'' \<longrightarrow>
            (\<exists>v. filter (\<lambda>x. v_user_id x = u_id user
                              \<and> Day (v_date x) = date_or_today e (b_date (r_body rq)))
                    (vitals (snd (handler e rq d))) = [v]
                \<and> (b_date (r_body rq) = NoDate \<longrightarrow> v_date v = today e)
                \<and> v_blood_glucose v = lenient_int (b_blood_glucose (r_body rq))
                \<and> v_blood_pressure_sys v = lenient_int (b_blood_pressure_sys (r_body rq))
                \<and> v_blood_pressure_dia v = lenient_int (b_blood_pressure_dia (r_body rq))
                \<and> v_heart_rate v = lenient_int (b_heart_rate (r_body rq))
                \<and> v_body_temperature v = toFloat (b_body_temperature (r_body rq))
                \<and> (not_numeric (b_blood_glucose (r_body rq)) \<longrightarrow> v_blood_glucose v = None)
                \<and> (not_numeric (b_blood_pressure_sys (r_body rq))
                     \<longrightarrow> v_blood_pressure_sys v = None)
                \<and> (not_numeric (b_blood_pressure_dia (r_body rq))
                     \<longrightarrow> v_blood_pressure_dia v = None)
                \<and> (not_numeric (b_heart_rate (r_body rq)) \<longrightarrow> v_heart_rate v = None)
                \<and> (not_decimal (b_body_temperature (r_body rq))
                     \<longrightarrow> v_body_temperature v = None)))
       \<and> not_numeric JUndefined \<and> not_numeric JNull
       \<and> not_decimal JUndefined \<and> not_decimal JNull"
proof (intro conjI impI)
  let ?b = "r_body rq"
  assume a: "r_action rq = Some ''habits.upsert''"
  note h = handler_habits_upsert[OF assms(2,3) a]
  from assms(4) have ok: "status (fst (handle_habits_upsert e user ?b d)) = 200" by (simp add: h)
  from habits_upsert_stored[OF assms(1) ok] obtain x
    where f: "filter (\<lambda>x. h_user_id x = u_id user \<and> Day (h_date x) = date_or_today e (b_date ?b))
               (habits (snd (handle_habits_upsert e user ?b d))) = [x]"
      and s: "int4 (or_default (toInt (b_steps ?b)) 0) = Inr (h_steps x)"
      and w: "int4 (or_default (toInt (b_water_cups ?b)) 0) = Inr (h_water_cups x)"
      and sl: "h_sleep_hours x = or_default (toFloat (b_sleep_hours ?b)) 0"
    by blast
  from f have "x \<in> set (filter (\<lambda>x. h_user_id x = u_id user
                  \<and> Day (h_date x) = date_or_today e (b_date ?b))
               (habits (snd (handle_habits_upsert e user ?b d))))" by simp
  then have dt: "Day (h_date x) = date_or_today e (b_date ?b)" by simp
  have 1: "b_date ?b = NoDate \<longrightarrow> h_date x = today e" using dt by auto
  note 2 = int4_lenient_or_zero[OF s]
  note 3 = int4_lenient_or_zero[OF w]
  have 4: "not_numeric (b_steps ?b) \<longrightarrow> h_steps x = 0"
    using 2 by (auto simp: not_numeric_lenient)
  have 5: "not_numeric (b_water_cups ?b) \<longrightarrow> h_water_cups x = 0"
    using 3 by (auto simp: not_numeric_lenient)
  have 6: "not_decimal (b_sleep_hours ?b) \<longrightarrow> h_sleep_hours x = 0"
    using sl by (auto simp: not_decimal_toFloat or_default_None)
  from f 1 2 3 sl 4 5 6
  show "\<exists>h. filter (\<lambda>x. h_user_id x = u_id user
                              \<and> Day (h_date x) = date_or_today e (b_date (r_body rq)))
                    (habits (snd (handler e rq d))) = [h]
                \<and> (b_date (r_body rq) = NoDate \<longrightarrow> h_date h = today e)
                \<and> h_steps h = (case lenient_int (b_steps (r_body rq)) of
                                 None \<Rightarrow> 0 | Some k \<Rightarrow> k)
                \<and> h_water_cups h = (case lenient_int (b_water_cups (r_body rq)) of
                                      None \<Rightarrow> 0 | Some k \<Rightarrow> k)
                \<and> h_sleep_hours h = or_default (toFloat (b_sleep_hours (r_body rq))) 0
                \<and> (not_numeric (b_steps (r_body rq)) \<longrightarrow> h_steps h = 0)
                \<and> (not_numeric (b_water_cups (r_body rq)) \<longrightarrow> h_water_cups h = 0)
                \<and> (not_decimal (b_sleep_hours (r_body rq)) \<longrightarrow> h_sleep_hours h = 0)"
    unfolding h by (intro exI[of _ x]) simp
next
  let ?b = "r_body rq"
  assume a: "r_action rq = Some ''vitals.upsert''"
  note h = handler_vitals_upsert[OF assms(2,3) a]
  from assms(4) have ok: "status (fst (handle_vitals_upsert e user ?b d)) = 200" by (simp add: h)
  from vitals_upsert_stored[OF assms(1) ok] obtain i n
    where dt: "date_or_today e (b_date ?b) = Day n"
      and f: "filter (\<lambda>x. v_user_id x = u_id user \<and> Day (v_date x) = date_or_today e (b_date ?b))
               (vitals (snd (handle_vitals_upsert e user ?b d)))
             = [\<lparr>v_id = i, v_user_id = u_id user, v_date = n,
                 v_blood_glucose = map_option floor (toInt (b_blood_glucose ?b)),
                 v_blood_pressure_sys = map_option floor (toInt (b_blood_pressure_sys ?b)),
                 v_blood_pressure_dia = map_option floor (toInt (b_blood_pressure_dia ?b)),
                 v_heart_rate = map_option floor (toInt (b_heart_rate ?b)),
                 v_body_temperature = toFloat (b_body_temperature ?b)\<rparr>]"
    by blast
  have 1: "b_date ?b = NoDate \<longrightarrow> n = today e" using dt by auto
  from f 1
  show "\<exists>v. filter (\<lambda>x. v_user_id x = u_id user
                              \<and> Day (v_date x) = date_or_today e (b_date (r_body rq)))
                    (vitals (snd (handler e rq d))) = [v]
                \<and> (b_date (r_body rq) = NoDate \<longrightarrow> v_date v = today e)
                \<and> v_blood_glucose v = lenient_int (b_blood_glucose (r_body rq))
                \<and> v_blood_pressure_sys v = lenient_int (b_blood_pressure_sys (r_body rq))
                \<and> v_blood_pressure_dia v = lenient_int (b_blood_pressure_dia (r_body rq))
                \<and> v_heart_rate v = lenient_int (b_heart_rate (r_body rq))
                \<and> v_body_temperature v = toFloat (b_body_temperature (r_body rq))
                \<and> (not_numeric (b_blood_glucose (r_body rq)) \<longrightarrow> v_blood_glucose v = None)
                \<and> (not_numeric (b_blood_pressure_sys (r_body rq))
                     \<longrightarrow> v_blood_pressure_sys v = None)
                \<and> (not_numeric (b_blood_pressure_dia (r_body rq))
                     \<longrightarrow> v_blood_pressure_dia v = None)
                \<and> (not_numeric (b_heart_rate (r_body rq)) \<longrightarrow> v_heart_rate v = None)
                \<and> (not_decimal (b_body_temperature (r_body rq))
                     \<longrightarrow> v_body_temperature v = None)"
    unfolding h by (simp add: floor_toInt_lenient not_numeric_lenient not_decimal_toFloat)
qed (rule missing_not_numeric)+





section \<open>The upserts on the small store\<close>

lemmas ex_defs = ex_post_def ex_get_def ex_habits_def ex_vitals_def empty_body_def ex_patient_def
  ex_doctor_def ex_env_def ex_db_def ex_ids

lemmas upsert_eval = handler_def handle_habits_upsert_def handle_vitals_upsert_def Let_def


lemmas lenient_defs = lenient_int_def split_sign_def ws_len_def ws_codes_def is_digit_def
  digit_val_def dec_value_def dbl_overflow_def Let_def

theorem upsert_defaults_witness:
  "db_ok ex_db
   \<and> not_numeric JUndefined \<and> not_numeric (JStr ''abc'') \<and> not_decimal JNull
   \<and> lenient_int (JStr ''12abc'') = Some 12 \<and> lenient_int (JStr ''120/80'') = Some 120
   \<and> map (\<lambda>x. (h_date x, h_steps x, h_water_cups x, h_sleep_hours x))
       (filter (\<lambda>x. h_user_id x = ex_p1 \<and> h_date x = 19000)
          (habits (snd (handler ex_env
             (ex_post ''habits.upsert'' ex_patient
                (ex_habits NoDate (JStr ''12abc'') JUndefined (JStr ''7.5h'')))
             ex_db))))
     = [(19000, 12, 0, 15 / 2)]
   \<and> map (\<lambda>x. (v_date x, v_blood_glucose x, v_blood_pressure_sys x, v_blood_pressure_dia x,
                v_heart_rate x, v_body_temperature x))
       (filter (\<lambda>x. v_user_id x = ex_p1 \<and> v_date x = 19000)
          (vitals (snd (handler ex_env
             (ex_post ''vitals.upsert'' ex_patient
                (ex_vitals NoDate (JStr ''abc'') (JStr ''120/80'') JNull JUndefined
                   (JStr ''36.5C'')))
             ex_db))))
     = [(19000, None, Some 120, None, None, Some (73 / 2))]"
proof -
  let ?rq = "ex_post ''habits.upsert'' ex_patient
               (ex_habits NoDate (JStr ''12abc'') JUndefined (JStr ''7.5h''))"
  let ?rv = "ex_post ''vitals.upsert'' ex_patient
               (ex_vitals NoDate (JStr ''abc'') (JStr ''120/80'') JNull JUndefined
                  (JStr ''36.5C''))"
  have h1: "db_ok ex_db" by (simp add: db_ok_def ex_db_def ex_ids)
  have h2: "r_method ?rq = ''POST''" "r_method ?rv = ''POST''" by (simp_all add: ex_post_def)
  have h3: "r_auth ?rq = Some ex_patient" "r_auth ?rv = Some ex_patient"
    by (simp_all add: ex_post_def)
  have a: "r_action ?rq = Some ''habits.upsert''" "r_action ?rv = Some ''vitals.upsert''"
    by (simp_all add: ex_post_def)
  have ok: "status (fst (handler ex_env ?rq ex_db)) = 200"
    by (simp add: upsert_eval ex_defs parse_defs store_defs)
  have okv: "status (fst (handler ex_env ?rv ex_db)) = 200"
    by (simp add: upsert_eval ex_defs parse_defs store_defs)
  have b: "b_date (r_body ?rq) = NoDate" "b_steps (r_body ?rq) = JStr ''12abc''"
    "b_water_cups (r_body ?rq) = JUndefined" "b_sleep_hours (r_body ?rq) = JStr ''7.5h''"
    by (simp_all add: ex_post_def ex_habits_def)
  have bv: "b_date (r_body ?rv) = NoDate" "b_blood_glucose (r_body ?rv) = JStr ''abc''"
    "b_blood_pressure_sys (r_body ?rv) = JStr ''120/80''"
    "b_blood_pressure_dia (r_body ?rv) = JNull" "b_heart_rate (r_body ?rv) = JUndefined"
    "b_body_temperature (r_body ?rv) = JStr ''36.5C''"
    by (simp_all add: ex_post_def ex_vitals_def)
  have n: "not_numeric JUndefined" "not_numeric (JStr ''abc'')" "not_decimal JNull"
    by (simp_all add: not_numeric_def not_decimal_def split_sign_def ws_len_def ws_codes_def
        is_digit_def)
  have p: "lenient_int (JStr ''12abc'') = Some 12" "lenient_int (JStr ''120/80'') = Some 120"
    "lenient_int JUndefined = None" "lenient_int JNull = None" "lenient_int (JStr ''abc'') = None"
    by (simp_all add: lenient_defs)
  have q: "or_default (toFloat (JStr ''7.5h'')) 0 = 15 / 2" "toFloat (JStr ''36.5C'') = Some (73 / 2)"
    by (simp_all add: parse_defs)
  from upsert_defaults[OF h1 h2(1) h3(1) ok] a(1) obtain h where
    f: "filter (\<lambda>x. h_user_id x = u_id ex_patient
                  \<and> Day (h_date x) = date_or_today ex_env (b_date (r_body ?rq)))
          (habits (snd (handler ex_env ?rq ex_db))) = [h]"
    and v: "b_date (r_body ?rq) = NoDate \<longrightarrow> h_date h = today ex_env"
      "h_steps h = (case lenient_int (b_steps (r_body ?rq)) of None \<Rightarrow> 0 | Some k \<Rightarrow> k)"
      "h_water_cups h = (case lenient_int (b_water_cups (r_body ?rq)) of
                           None \<Rightarrow> 0 | Some k \<Rightarrow> k)"
      "h_sleep_hours h = or_default (toFloat (b_sleep_hours (r_body ?rq))) 0"
    by blast
  from v have "(h_date h, h_steps h, h_water_cups h, h_sleep_hours h) = (19000, 12, 0, 15 / 2)"
    unfolding b by (simp add: p q ex_env_def)
  moreover from f have "filter (\<lambda>x. h_user_id x = ex_p1 \<and> h_date x = 19000)
          (habits (snd (handler ex_env ?rq ex_db))) = [h]"
    unfolding b by (simp add: ex_patient_def ex_env_def)
  ultimately have habits: "map (\<lambda>x. (h_date x, h_steps x, h_water_cups x, h_sleep_hours x))
       (filter (\<lambda>x. h_user_id x = ex_p1 \<and> h_date x = 19000)
          (habits (snd (handler ex_env ?rq ex_db)))) = [(19000, 12, 0, 15 / 2)]"
    by simp
  from upsert_defaults[OF h1 h2(2) h3(2) okv] a(2) obtain w where
    fv: "filter (\<lambda>x. v_user_id x = u_id ex_patient
                  \<and> Day (v_date x) = date_or_today ex_env (b_date (r_body ?rv)))
          (vitals (snd (handler ex_env ?rv ex_db))) = [w]"
    and vv: "b_date (r_body ?rv) = NoDate \<longrightarrow> v_date w = today ex_env"
      "v_blood_glucose w = lenient_int (b_blood_glucose (r_body ?rv))"
      "v_blood_pressure_sys w = lenient_int (b_blood_pressure_sys (r_body ?rv))"
      "v_blood_pressure_dia w = lenient_int (b_blood_pressure_dia (r_body ?rv))"
      "v_heart_rate w = lenient_int (b_heart_rate (r_body ?rv))"
      "v_body_temperature w = toFloat (b_body_temperature (r_body ?rv))"
    by blast
  from vv have "(v_date w, v_blood_glucose w, v_blood_pressure_sys w, v_blood_pressure_dia w,
                 v_heart_rate w, v_body_temperature w)
                = (19000, None, Some 120, None, None, Some (73 / 2))"
    unfolding bv by (simp add: p q ex_env_def)
  moreover from fv have "filter (\<lambda>x. v_user_id x = ex_p1 \<and> v_date x = 19000)
          (vitals (snd (handler ex_env ?rv ex_db))) = [w]"
    unfolding bv by (simp add: ex_patient_def ex_env_def)
  ultimately have vitals: "map (\<lambda>x. (v_date x, v_blood_glucose x, v_blood_pressure_sys x,
                v_blood_pressure_dia x, v_heart_rate x, v_body_temperature x))
       (filter (\<lambda>x. v_user_id x = ex_p1 \<and> v_date x = 19000)
          (vitals (snd (handler ex_env ?rv ex_db))))
     = [(19000, None, Some 120, None, None, Some (73 / 2))]"
    by simp
  from h1 n p(1,2) habits vitals show ?thesis by (intro conjI)
qed

text \<open>
  Claim C6, as the specification states it, fails for a value that is not a number but starts
  with one: \<^verbatim>\<open>steps = '12abc'\<close>, \<^verbatim>\<open>water_cups = '7,5'\<close> and
  \<^verbatim>\<open>sleep_hours = '8h'\<close> are stored as 12, 7 and 8, not as 0, and the blood pressure
  \<^verbatim>\<open>'120/80'\<close> is stored as 120, not as null.
\<close>

theorem invalid_number_stored_counterexample:
  "status (fst (handler ex_env
      (ex_post ''habits.upsert'' ex_patient
         (ex_habits (Day 19000) (JStr ''12abc'') (JStr ''7,5'') (JStr ''8h'')))
      ex_db)) = 200
   \<and> map (\<lambda>x. (h_date x, h_steps x, h_water_cups x, h_sleep_hours x))
       (habits (snd (handler ex_env
          (ex_post ''habits.upsert'' ex_patient
             (ex_habits (Day 19000) (JStr ''12abc'') (JStr ''7,5'') (JStr ''8h'')))
          ex_db)))
     = [(18999, 5000, 6, 15 / 2), (19000, 12, 7, 8)]
   \<and> status (fst (handler ex_env
      (ex_post ''vitals.upsert'' ex_patient
         (ex_vitals (Day 19000) JUndefined (JStr ''120/80'') JUndefined JUndefined JUndefined))
      ex_db)) = 200
   \<and> map (\<lambda>x. (v_date x, v_blood_pressure_sys x))
       (vitals (snd (handler ex_env
          (ex_post ''vitals.upsert'' ex_patient
             (ex_vitals (Day 19000) JUndefined (JStr ''120/80'') JUndefined JUndefined
                JUndefined))
          ex_db)))
     = [(19000, Some 120)]"
  by (simp add: upsert_eval ex_defs parse_defs store_defs)




section \<open>Fetching daily records\<close>

lemma distinct_dates_of_user:
  assumes "distinct (map (\<lambda>x. (u x, k x)) xs)"
  shows "distinct (map k (filter (\<lambda>x. u x = t \<and> Q x) xs))"
  using assms
proof (induction xs)
  case Nil
  then show ?case by simp
next
  case (Cons a xs)
  then have IH: "distinct (map k (filter (\<lambda>x. u x = t \<and> Q x) xs))" by simp
  show ?case
  proof (cases "u a = t \<and> Q a")
    case True
    from Cons.prems have "(u a, k a) \<notin> (\<lambda>x. (u x, k x)) ` set xs" by simp
    with True have "k a \<notin> k ` set (filter (\<lambda>x. u x = t \<and> Q x) xs)" by (auto simp: image_iff)
    with True IH show ?thesis by simp
  next
    case False
    with IH show ?thesis by auto
  qed
qed

lemma sort_desc_strict:
  fixes k :: "'a \<Rightarrow> int"
  assumes "distinct (map k xs)"
  shows "sorted_wrt (\<lambda>a b. k b < k a) (sort_key (\<lambda>x. - k x) xs)"
proof -
  let ?ys = "sort_key (\<lambda>x. - k x) xs"
  have s: "sorted (map (\<lambda>x. - k x) ?ys)" by (rule sorted_sort_key)
  from assms have "distinct xs" and inj: "inj_on k (set xs)" by (simp_all add: distinct_map)
  then have "distinct ?ys" and "inj_on k (set ?ys)" by simp_all
  then have "distinct (map (\<lambda>x. - k x) ?ys)"
    by (auto simp: distinct_map inj_on_def)
  with s have "sorted_wrt (<) (map (\<lambda>x. - k x) ?ys)" by (simp add: strict_sorted_iff)
  then show ?thesis by (simp add: sorted_wrt_map)
qed

lemma daysAgoISO_Some:
  assumes "- 719162 \<le> today e - \<lfloor>k\<rfloor>" and "today e - \<lfloor>k\<rfloor> \<le> 2932896"
  shows "daysAgoISO e k = Some (today e - \<lfloor>k\<rfloor>)"
  using assms by (simp add: daysAgoISO_def Let_def)

lemma habits_fetch_rows:
  assumes "db_ok d"
    and "cross_account_check d user (forUserId_of user rq) = None"
    and "store_reads (forUserId_of user rq) = Some tv"
    and "daysAgoISO e (or_default (toInt (qp_val (r_qp_rangeDays rq))) 7) = Some since"
  shows "\<exists>rows. handle_habits_fetch e user rq d = Resp 200 (HabitItems (map habit_item_of rows))
           \<and> set rows = {x \<in> set (habits d). h_user_id x = tv \<and> since \<le> h_date x}
           \<and> sorted_wrt (\<lambda>a b. h_date b < h_date a) rows"
proof -
  let ?rows = "sort_key (\<lambda>x. - h_date x)
                 (filter (\<lambda>x. h_user_id x = tv \<and> since \<le> h_date x) (habits d))"
  from assms(1) have "distinct (map (\<lambda>x. (h_user_id x, h_date x)) (habits d))"
    by (simp add: db_ok_def)
  then have "distinct (map h_date (filter (\<lambda>x. h_user_id x = tv \<and> since \<le> h_date x) (habits d)))"
    by (rule distinct_dates_of_user)
  then have "sorted_wrt (\<lambda>a b. h_date b < h_date a) ?rows" by (rule sort_desc_strict)
  moreover have "set ?rows = {x \<in> set (habits d). h_user_id x = tv \<and> since \<le> h_date x}"
    by auto
  moreover have "handle_habits_fetch e user rq d = Resp 200 (HabitItems (map habit_item_of ?rows))"
    using assms(2,3,4) by (simp add: handle_habits_fetch_def Let_def)
  ultimately show ?thesis by blast
qed

lemma vitals_fetch_rows:
  assumes "db_ok d"
    and "cross_account_check d user (forUserId_of user rq) = None"
    and "store_reads (forUserId_of user rq) = Some tv"
    and "daysAgoISO e (or_default (toInt (qp_val (r_qp_rangeDays rq))) 7) = Some since"
  shows "\<exists>rows. handle_vitals_fetch e user rq d = Resp 200 (VitalItems (map vital_item_of rows))
           \<and> set rows = {x \<in> set (vitals d). v_user_id x = tv \<and> since \<le> v_date x}
           \<and> sorted_wrt (\<lambda>a b. v_date b < v_date a) rows"
proof -
  let ?rows = "sort_key (\<lambda>x. - v_date x)
                 (filter (\<lambda>x. v_user_id x = tv \<and> since \<le> v_date x) (vitals d))"
  from assms(1) have "distinct (map (\<lambda>x. (v_user_id x, v_date x)) (vitals d))"
    by (simp add: db_ok_def)
  then have "distinct (map v_date (filter (\<lambda>x. v_user_id x = tv \<and> since \<le> v_date x) (vitals d)))"
    by (rule distinct_dates_of_user)
  then have "sorted_wrt (\<lambda>a b. v_date b < v_date a) ?rows" by (rule sort_desc_strict)
  moreover have "set ?rows = {x \<in> set (vitals d). v_user_id x = tv \<and> since \<le> v_date x}"
    by auto
  moreover have "handle_vitals_fetch e user rq d = Resp 200 (VitalItems (map vital_item_of ?rows))"
    using assms(2,3,4) by (simp add: handle_vitals_fetch_def Let_def)
  ultimately show ?thesis by blast
qed

lemma desc_rows_unique:
  fixes k :: "'a \<Rightarrow> int"
  assumes "sorted_wrt (\<lambda>a b. k b < k a) rows" and "sorted_wrt (\<lambda>a b. k b < k a) rows'"
    and "set rows = set rows'"
  shows "rows = rows'"
proof -
  let ?f = "\<lambda>x. - k x"
  from assms(1) have "sorted_wrt (<) (map ?f rows)" by (simp add: sorted_wrt_map)
  then have a: "sorted (map ?f rows)" "distinct (map ?f rows)" by (simp_all add: strict_sorted_iff)
  from assms(2) have "sorted_wrt (<) (map ?f rows')" by (simp add: sorted_wrt_map)
  then have b: "sorted (map ?f rows')" "distinct (map ?f rows')"
    by (simp_all add: strict_sorted_iff)
  from a(2) have "inj_on ?f (set rows)" by (simp add: distinct_map)
  with assms(3) have "inj_on ?f (set rows \<union> set rows')" by simp
  from map_sorted_distinct_set_unique[OF this a b assms(3)] show ?thesis .
qed

text \<open>
  Claim C8, amended. Under the keys of the schema, for a \<^verbatim>\<open>habits.fetch\<close> or
  \<^verbatim>\<open>vitals.fetch\<close> request that passes the authorization check (its \<^verbatim>\<open>user_id\<close> is
  absent or the caller's id, or the caller is a doctor with a link of both flags to the
  account named), with \<open>tv\<close> the target account as the store reads it and \<open>since\<close> the date
  \<^verbatim>\<open>rangeDays\<close> days before the current date (a date of the years 0001 to 9999): the
  answer is 200 and lists exactly the target's entries dated \<open>since\<close> or later, each once,
  in strictly descending order of date. There is no upper bound on the date: entries dated
  after the current date are listed too.
\<close>

theorem fetch_returns_entries_since:
  assumes "db_ok d" and "r_method rq \<noteq> ''OPTIONS''" and "r_auth rq = Some user"
    and "store_reads (forUserId_of user rq) = Some tv"
    and "may_read d user (forUserId_of user rq)"
    and "since = today e - \<lfloor>or_default (toInt (qp_val (r_qp_rangeDays rq))) 7\<rfloor>"
    and "- 719162 \<le> since" and "since \<le> 2932896"
  shows "(r_action rq = Some ''habits.fetch'' \<longrightarrow>
            (\<exists>rows. fst (handler e rq d) = Resp 200 (HabitItems (map habit_item_of rows))
                \<and> set rows = {x \<in> set (habits d). h_user_id x = tv \<and> since \<le> h_date x}
                \<and> sorted_wrt (\<lambda>a b. h_date b < h_date a) rows))
       \<and> (r_action rq = Some ''vitals.fetch'' \<longrightarrow>
            (\<exists>rows. fst (handler e rq d) = Resp 200 (VitalItems (map vital_item_of rows))
                \<and> set rows = {x \<in> set (vitals d). v_user_id x = tv \<and> since \<le> v_date x}
                \<and> sorted_wrt (\<lambda>a b. v_date b < v_date a) rows))"
proof (intro conjI impI)
  note c = permits_cross_check[OF assms(1,5)]
  note s = daysAgoISO_Some[OF assms(7,8)[unfolded assms(6)], folded assms(6)]
  {
    assume a: "r_action rq = Some ''habits.fetch''"
    from habits_fetch_rows[OF assms(1) c assms(4) s] handler_habits_fetch[OF assms(2,3) a, of e d]
    show "\<exists>rows. fst (handler e rq d) = Resp 200 (HabitItems (map habit_item_of rows))
                \<and> set rows = {x \<in> set (habits d). h_user_id x = tv \<and> since \<le> h_date x}
                \<and> sorted_wrt (\<lambda>a b. h_date b < h_date a) rows"
      by simp
  }
  {
    assume a: "r_action rq = Some ''vitals.fetch''"
    from vitals_fetch_rows[OF assms(1) c assms(4) s] handler_vitals_fetch[OF assms(2,3) a, of e d]
    show "\<exists>rows. fst (handler e rq d) = Resp 200 (VitalItems (map vital_item_of rows))
                \<and> set rows = {x \<in> set (vitals d). v_user_id x = tv \<and> since \<le> v_date x}
                \<and> sorted_wrt (\<lambda>a b. v_date b < v_date a) rows"
      by simp
  }
qed

theorem fetch_returns_entries_since_witness:
  "db_ok ex_db2
   \<and> may_read ex_db2 ex_doctor (Given ex_p1_upper)
   \<and> uuid_in ex_p1_upper = Some ex_p1
   \<and> spec_permits ex_db2 ex_d1 ex_p1
   \<and> map h_date (habits ex_db2) = [18980, 19030, 19000, 18999]
   \<and> fst (handler ex_env (ex_get ''habits.fetch'' ex_doctor (Some ex_p1_upper) (Some ''7'')) ex_db2)
     = Resp 200 (HabitItems
         [\<lparr>hi_date = 19030, hi_steps = 7000, hi_water_cups = 8, hi_sleep_hours = 8\<rparr>,
          \<lparr>hi_date = 18999, hi_steps = 5000, hi_water_cups = 6, hi_sleep_hours = 15 / 2\<rparr>])"
proof -
  let ?rq = "ex_get ''habits.fetch'' ex_doctor (Some ex_p1_upper) (Some ''7'')"
  let ?r2 = "\<lparr>h_id = ''h2'', h_user_id = ex_p1, h_date = 19030, h_steps = 7000,
              h_water_cups = 8, h_sleep_hours = 8\<rparr>"
  let ?r1 = "\<lparr>h_id = ''h1'', h_user_id = ex_p1, h_date = 18999, h_steps = 5000,
              h_water_cups = 6, h_sleep_hours = 15 / 2\<rparr>"
  have h1: "db_ok ex_db2" by (simp add: db_ok_def ex_db2_def ex_db_def ex_ids)
  have h2: "r_method ?rq \<noteq> ''OPTIONS''" by (simp add: ex_get_def)
  have h3: "r_auth ?rq = Some ex_doctor" by (simp add: ex_get_def)
  have t: "forUserId_of ex_doctor ?rq = Given ex_p1_upper"
    by (simp add: forUserId_of_def ex_get_def ex_ids)
  have u: "uuid_in ex_p1_upper = Some ex_p1" by (simp add: uuid_defs ex_ids)
  have h4: "store_reads (forUserId_of ex_doctor ?rq) = Some ex_p1"
    unfolding t by (simp add: u)
  have h5: "may_read ex_db2 ex_doctor (forUserId_of ex_doctor ?rq)"
    unfolding t by (simp add: may_read_def ex_db2_def ex_db_def ex_doctor_def uuid_defs ex_ids)
  have sp: "spec_permits ex_db2 ex_d1 ex_p1"
    by (simp add: spec_permits_def ex_db2_def ex_db_def ex_ids)
  have h6: "18993 = today ex_env - \<lfloor>or_default (toInt (qp_val (r_qp_rangeDays ?rq))) 7\<rfloor>"
    by (simp add: ex_get_def ex_env_def parse_defs)
  have h7: "- 719162 \<le> (18993::int)" by simp
  have h8: "(18993::int) \<le> 2932896" by simp
  have a: "r_action ?rq = Some ''habits.fetch''" by (simp add: ex_get_def)
  note rows = fetch_returns_entries_since[OF h1 h2 h3 h4 h5 h6 h7 h8, THEN conjunct1, THEN mp,
      OF a]
  from rows
  obtain rows where r: "fst (handler ex_env ?rq ex_db2) = Resp 200 (HabitItems (map habit_item_of rows))"
    and s: "set rows = {x \<in> set (habits ex_db2). h_user_id x = ex_p1 \<and> 18993 \<le> h_date x}"
    and o: "sorted_wrt (\<lambda>a b. h_date b < h_date a) rows"
    by (elim exE conjE)
  have "{x \<in> set (habits ex_db2). h_user_id x = ex_p1 \<and> 18993 \<le> h_date x} = set [?r2, ?r1]"
    by (auto simp: ex_db2_def ex_ids)
  with s have s': "set rows = set [?r2, ?r1]" by simp
  have o': "sorted_wrt (\<lambda>a b. h_date b < h_date a) [?r2, ?r1]" by simp
  from desc_rows_unique[OF o o' s'] have "rows = [?r2, ?r1]" .
  with r have res: "fst (handler ex_env ?rq ex_db2)
     = Resp 200 (HabitItems
         [\<lparr>hi_date = 19030, hi_steps = 7000, hi_water_cups = 8, hi_sleep_hours = 8\<rparr>,
          \<lparr>hi_date = 18999, hi_steps = 5000, hi_water_cups = 6, hi_sleep_hours = 15 / 2\<rparr>])"
    by (simp add: habit_item_of_def)
  have dates: "map h_date (habits ex_db2) = [18980, 19030, 19000, 18999]"
    by (simp add: ex_db2_def)
  from h1 h5 u sp dates res show ?thesis unfolding t by (intro conjI)
qed

theorem fetch_returns_future_entry_counterexample:
  "today ex_env = 19000
   \<and> fst (handler ex_env (ex_get ''habits.fetch'' ex_patient None (Some ''7''))
       (snd (handler ex_env
          (ex_post ''habits.upsert'' ex_patient
             (ex_habits (Day 19030) (JNum ''100'') (JNum ''1'') (JNum ''8'')))
          ex_db)))
     = Resp 200 (HabitItems
         [\<lparr>hi_date = 19030, hi_steps = 100, hi_water_cups = 1, hi_sleep_hours = 8\<rparr>,
          \<lparr>hi_date = 18999, hi_steps = 5000, hi_water_cups = 6, hi_sleep_hours = 15 / 2\<rparr>])"
  by (simp add: upsert_eval ex_defs parse_defs store_defs handle_habits_fetch_def forUserId_of_def
      cross_account_check_def daysAgoISO_def habit_item_of_def)












end
